theory Spec2Isabelle
  imports Main "HOL-Library.Sublist"
begin

section \<open>The monolith server's startup sequence (cmd/dendrite-monolith-server/main.go)\<close>

text \<open>
  The program is one function, \<^verbatim>\<open>main\<close>: a straight line of calls into the
  subsystems' packages, one error check, the registrations on the default HTTP
  multiplexer and the launch of one or two listener goroutines. Its model threads a
  state through these statements. The state holds what the statements leave behind: the
  log of effects in program order, the allocation counter that gives every object
  returned by a constructor its identity, the stack of deferred calls, the patterns
  registered on \<^verbatim>\<open>http.DefaultServeMux\<close>, the goroutines and the status of the process.
\<close>

subsection \<open>Command line and environment\<close>

text \<open>
  What the run depends on and the source does not fix: the flags of the command line,
  \<^verbatim>\<open>cfg.Metrics.Enabled\<close> of the configuration that \<^verbatim>\<open>ParseMonolithFlags\<close> returns, the
  error of \<^verbatim>\<open>storage.NewPublicRoomsServerDatabase\<close> (\<open>None\<close> for \<^verbatim>\<open>nil\<close>) and the constant
  \<^verbatim>\<open>basecomponent.HTTPServerTimeout\<close>, a duration in nanoseconds declared outside this file.
\<close>

record world =
  flags :: "string \<rightharpoonup> string"
  Metrics_Enabled :: bool
  publicRoomsDB_err :: "string option"
  HTTPServerTimeout :: int

text \<open>\<^verbatim>\<open>flag.String(name, value, usage)\<close>: the value given on the command line, else the default.\<close>

definition flag_String :: "world \<Rightarrow> string \<Rightarrow> string \<Rightarrow> string \<Rightarrow> string" where
  "flag_String w name dflt usage = (case flags w name of None \<Rightarrow> dflt | Some v \<Rightarrow> v)"

definition httpBindAddr :: "world \<Rightarrow> string" where
  "httpBindAddr w =
     flag_String w ''http-bind-address'' '':8008'' ''The HTTP listening port for the server''"

definition httpsBindAddr :: "world \<Rightarrow> string" where
  "httpsBindAddr w =
     flag_String w ''https-bind-address'' '':8448'' ''The HTTPS listening port for the server''"

definition certFile :: "world \<Rightarrow> string" where
  "certFile w =
     flag_String w ''tls-cert'' [] ''The PEM formatted X509 certificate to use for TLS''"

definition keyFile :: "world \<Rightarrow> string" where
  "keyFile w = flag_String w ''tls-key'' [] ''The PEM private key to use for TLS''"

subsection \<open>Values, events and the state\<close>

text \<open>The functions of other packages that \<^verbatim>\<open>main\<close> calls.\<close>

datatype func =
    ParseMonolithFlags | NewBaseDendrite | base_Close
  | CreateAccountsDB | CreateDeviceDB | CreateKeyDB | CreateFederationClient | CreateKeyRing
  | SetupRoomServerComponent | cache_New | SetupEDUServerComponent | transactions_New
  | SetupAppServiceAPIComponent | SetupFederationSenderComponent | SetupClientAPIComponent
  | NewEDUServerProducer | SetupFederationAPIComponent | SetupMediaAPIComponent
  | NewPublicRoomsServerDatabase | SetupPublicRoomsAPIComponent | SetupSyncAPIComponent
  | WrapHandlerInCORS | WrapHandlerInBasicAuth | promhttp_Handler

text \<open>
  The values that flow between the calls. \<open>Obj f n\<close> is the object with allocation number
  \<open>n\<close>, returned by a call of \<open>f\<close>; \<open>NilV\<close> is \<^verbatim>\<open>nil\<close>; \<open>FieldOf v f\<close> is \<^verbatim>\<open>v.f\<close> and \<open>Ref v\<close>
  is \<^verbatim>\<open>&v\<close>. The two wrappers of package \<^verbatim>\<open>common\<close> return the handler they are given
  inside their own: \<open>InCORS h\<close> and \<open>InBasicAuth h credentials\<close>.
\<close>

datatype val =
    NilV
  | Str string
  | Obj func nat
  | FieldOf val string
  | Ref val
  | InCORS val
  | InBasicAuth val val

datatype level = InfoLevel | FatalLevel | PanicLevel

datatype listener = Plaintext | TLS

record server =
  Addr :: string
  WriteTimeout :: int
  Handler :: "val option"

datatype event =
    Call func "val list" "val list"
  | Defer func "val list"
  | HttpHandle string val
  | Go listener
  | Select
  | Log level string "string option"
  | ListenAndServe server
  | ListenAndServeTLS server string string
  | Panic
  | Exit nat

datatype phase = Spawned | Serving server

datatype status = Running | Exited nat

record state =
  trace :: "event list"
  next_obj :: nat
  deferred :: "(func \<times> val list) list"
  DefaultServeMux :: "(string \<times> val) list"
  goroutines :: "(listener \<times> phase) list"
  status :: status

definition init :: state where
  "init = \<lparr>trace = [], next_obj = 0, deferred = [], DefaultServeMux = [],
           goroutines = [], status = Running\<rparr>"

subsection \<open>Statements\<close>

definition emit :: "event \<Rightarrow> state \<Rightarrow> state" where
  "emit e s = s\<lparr>trace := trace s @ [e]\<rparr>"

text \<open>
  A call of another package's function is recorded with the arguments it receives and
  the results it returns. A result is a fresh object: \<open>call0\<close>, \<open>call1\<close> and \<open>call3\<close> are
  the calls with no, one and three results. What the called function does inside is not
  part of this file; the call is taken to return.
\<close>

definition call0 :: "func \<Rightarrow> val list \<Rightarrow> state \<Rightarrow> state" where
  "call0 f as s = emit (Call f as []) s"

definition call1 :: "func \<Rightarrow> val list \<Rightarrow> state \<Rightarrow> val \<times> state" where
  "call1 f as s =
     (let r = Obj f (next_obj s)
      in (r, emit (Call f as [r]) (s\<lparr>next_obj := next_obj s + 1\<rparr>)))"

definition call3 :: "func \<Rightarrow> val list \<Rightarrow> state \<Rightarrow> (val \<times> val \<times> val) \<times> state" where
  "call3 f as s =
     (let r1 = Obj f (next_obj s); r2 = Obj f (next_obj s + 1); r3 = Obj f (next_obj s + 2)
      in ((r1, r2, r3), emit (Call f as [r1, r2, r3]) (s\<lparr>next_obj := next_obj s + 3\<rparr>)))"

text \<open>The wrappers: a call whose result is the wrapped handler.\<close>

definition wrap_cors :: "val \<Rightarrow> state \<Rightarrow> val \<times> state" where
  "wrap_cors h s = (InCORS h, emit (Call WrapHandlerInCORS [h] [InCORS h]) s)"

definition wrap_basic_auth :: "val \<Rightarrow> val \<Rightarrow> state \<Rightarrow> val \<times> state" where
  "wrap_basic_auth h b s =
     (InBasicAuth h b, emit (Call WrapHandlerInBasicAuth [h, b] [InBasicAuth h b]) s)"

text \<open>\<^verbatim>\<open>defer f(as)\<close> pushes the call; the stack runs last in, first out.\<close>

definition defer_call :: "func \<Rightarrow> val list \<Rightarrow> state \<Rightarrow> state" where
  "defer_call f as s = emit (Defer f as) (s\<lparr>deferred := (f, as) # deferred s\<rparr>)"

definition run_deferred :: "state \<Rightarrow> state" where
  "run_deferred s = fold (\<lambda>(f, as). call0 f as) (deferred s) (s\<lparr>deferred := []\<rparr>)"

text \<open>\<^verbatim>\<open>os.Exit(code)\<close> ends the process at once: no deferred call runs.\<close>

definition os_Exit :: "nat \<Rightarrow> state \<Rightarrow> state" where
  "os_Exit code s = (emit (Exit code) s)\<lparr>status := Exited code\<rparr>"

text \<open>
  A panic that nothing recovers unwinds \<^verbatim>\<open>main\<close>: its deferred calls run, then the
  runtime ends the process with exit code 2.
\<close>

definition panic :: "state \<Rightarrow> state" where
  "panic s = os_Exit 2 (run_deferred (emit Panic s))"

text \<open>
  The three calls of the logger: \<^verbatim>\<open>logrus.WithError(err).Panicf(msg)\<close> logs and panics,
  \<^verbatim>\<open>logrus.Info(a, b)\<close> logs, \<^verbatim>\<open>logrus.Fatal(err)\<close> logs and calls \<^verbatim>\<open>os.Exit(1)\<close>.
\<close>

definition logrus_WithError_Panicf :: "string \<Rightarrow> string \<Rightarrow> state \<Rightarrow> state" where
  "logrus_WithError_Panicf err msg s = panic (emit (Log PanicLevel msg (Some err)) s)"

definition logrus_Info :: "string \<Rightarrow> string \<Rightarrow> state \<Rightarrow> state" where
  "logrus_Info a b s = emit (Log InfoLevel (a @ b) None) s"

definition logrus_Fatal :: "string \<Rightarrow> state \<Rightarrow> state" where
  "logrus_Fatal err s = os_Exit 1 (emit (Log FatalLevel err None) s)"

text \<open>\<^verbatim>\<open>http.Handle(pattern, handler)\<close> registers on \<^verbatim>\<open>http.DefaultServeMux\<close>.\<close>

definition http_Handle :: "string \<Rightarrow> val \<Rightarrow> state \<Rightarrow> state" where
  "http_Handle pattern h s =
     emit (HttpHandle pattern h) (s\<lparr>DefaultServeMux := DefaultServeMux s @ [(pattern, h)]\<rparr>)"

text \<open>\<^verbatim>\<open>go func() {...}()\<close> adds a goroutine, which has not run yet.\<close>

definition go :: "listener \<Rightarrow> state \<Rightarrow> state" where
  "go l s = emit (Go l) (s\<lparr>goroutines := goroutines s @ [(l, Spawned)]\<rparr>)"

subsection \<open>\<^verbatim>\<open>main\<close>\<close>

text \<open>
  The statements of \<^verbatim>\<open>main\<close> in their order, up to \<^verbatim>\<open>select {}\<close>, where \<^verbatim>\<open>main\<close> blocks
  for ever. The arguments of a call are evaluated left to right before the call, so
  \<^verbatim>\<open>cache.New()\<close> and the two \<^verbatim>\<open>transactions.New()\<close> precede the call they stand in.
\<close>

definition main :: "world \<Rightarrow> state" where
  "main w =
    (let s = init;
         (cfg, s) = call1 ParseMonolithFlags [] s;
         (base, s) = call1 NewBaseDendrite [cfg, Str ''Monolith''] s;
         s = defer_call base_Close [base] s;
         (accountDB, s) = call1 CreateAccountsDB [base] s;
         (deviceDB, s) = call1 CreateDeviceDB [base] s;
         (keyDB, s) = call1 CreateKeyDB [base] s;
         (federation, s) = call1 CreateFederationClient [base] s;
         (keyRing, s) = call1 CreateKeyRing
            [FieldOf federation ''Client'', keyDB, FieldOf cfg ''Matrix.KeyPerspectives''] s;
         ((alias, input, query), s) = call3 SetupRoomServerComponent [base] s;
         (c, s) = call1 cache_New [] s;
         (eduInputAPI, s) = call1 SetupEDUServerComponent [base, c] s;
         (t, s) = call1 transactions_New [] s;
         (asQuery, s) = call1 SetupAppServiceAPIComponent
            [base, accountDB, deviceDB, federation, alias, query, t] s;
         (fedSenderAPI, s) = call1 SetupFederationSenderComponent [base, federation, query] s;
         (t', s) = call1 transactions_New [] s;
         s = call0 SetupClientAPIComponent
            [base, deviceDB, accountDB, federation, Ref keyRing, alias, input, query,
             eduInputAPI, asQuery, t', fedSenderAPI] s;
         (eduProducer, s) = call1 NewEDUServerProducer [eduInputAPI] s;
         s = call0 SetupFederationAPIComponent
            [base, accountDB, deviceDB, federation, Ref keyRing, alias, input, query,
             asQuery, fedSenderAPI, eduProducer] s;
         s = call0 SetupMediaAPIComponent [base, deviceDB] s
     in case publicRoomsDB_err w of
          Some err \<Rightarrow>
            logrus_WithError_Panicf err ''failed to connect to public rooms db''
              (emit (Call NewPublicRoomsServerDatabase
                       [FieldOf base ''Cfg.Database.PublicRoomsAPI''] [NilV]) s)
        | None \<Rightarrow>
           (let (publicRoomsDB, s) = call1 NewPublicRoomsServerDatabase
                   [FieldOf base ''Cfg.Database.PublicRoomsAPI''] s;
                s = call0 SetupPublicRoomsAPIComponent
                   [base, deviceDB, publicRoomsDB, query, federation, NilV] s;
                s = call0 SetupSyncAPIComponent
                   [base, deviceDB, accountDB, query, federation, cfg] s;
                (httpHandler, s) = wrap_cors (FieldOf base ''APIMux'') s;
                s = (if Metrics_Enabled w
                     then (let (h, s) = call1 promhttp_Handler [] s;
                               (h, s) = wrap_basic_auth h (FieldOf cfg ''Metrics.BasicAuth'') s
                           in http_Handle ''/metrics'' h s)
                     else s);
                s = http_Handle ''/'' httpHandler s;
                s = go Plaintext s;
                s = (if certFile w \<noteq> [] \<and> keyFile w \<noteq> [] then go TLS s else s)
            in emit Select s))"

subsection \<open>The listener goroutines\<close>

text \<open>
  Both goroutines have the same body: build the server value, log the address, serve.
  \<^verbatim>\<open>ListenAndServe\<close> and \<^verbatim>\<open>ListenAndServeTLS\<close> return only with an error, when the address
  cannot be bound or the accept loop fails, and the error goes to \<^verbatim>\<open>logrus.Fatal\<close>. The
  server value sets \<^verbatim>\<open>Addr\<close> and \<^verbatim>\<open>WriteTimeout\<close> and leaves \<^verbatim>\<open>Handler\<close> nil.
\<close>

definition serv :: "world \<Rightarrow> listener \<Rightarrow> server" where
  "serv w l =
     \<lparr>Addr = (case l of Plaintext \<Rightarrow> httpBindAddr w | TLS \<Rightarrow> httpsBindAddr w),
      WriteTimeout = HTTPServerTimeout w,
      Handler = None\<rparr>"

definition set_phase :: "listener \<Rightarrow> phase \<Rightarrow> state \<Rightarrow> state" where
  "set_phase l p s =
     s\<lparr>goroutines := map (\<lambda>(l', p'). if l' = l then (l', p) else (l', p')) (goroutines s)\<rparr>"

definition goroutine_start :: "world \<Rightarrow> listener \<Rightarrow> state \<Rightarrow> state" where
  "goroutine_start w l s =
     (let sv = serv w l;
          s = logrus_Info ''Listening on '' (Addr sv) s;
          s = emit (case l of Plaintext \<Rightarrow> ListenAndServe sv
                            | TLS \<Rightarrow> ListenAndServeTLS sv (certFile w) (keyFile w)) s
      in set_phase l (Serving sv) s)"

definition goroutine_fail :: "listener \<Rightarrow> string \<Rightarrow> state \<Rightarrow> state" where
  "goroutine_fail l err s = logrus_Fatal err s"

text \<open>
  What can happen once goroutines exist, while the process runs: a spawned goroutine runs
  up to its serve call (\<open>Start\<close>), or the serve call of a goroutine returns an error
  (\<open>Fail\<close>). \<open>step\<close> is \<open>None\<close> when the step is not possible in the state.
\<close>

datatype sched = Start listener | Fail listener string

fun is_serving_phase :: "phase option \<Rightarrow> bool" where
  "is_serving_phase (Some (Serving sv)) = True"
| "is_serving_phase _ = False"

fun step :: "world \<Rightarrow> sched \<Rightarrow> state \<Rightarrow> state option" where
  "step w (Start l) s =
     (if status s = Running \<and> map_of (goroutines s) l = Some Spawned
      then Some (goroutine_start w l s) else None)"
| "step w (Fail l err) s =
     (if status s = Running \<and> is_serving_phase (map_of (goroutines s) l)
      then Some (goroutine_fail l err s) else None)"

fun run :: "world \<Rightarrow> sched list \<Rightarrow> state \<Rightarrow> state option" where
  "run w [] s = Some s"
| "run w (ev # evs) s = (case step w ev s of None \<Rightarrow> None | Some s' \<Rightarrow> run w evs s')"

text \<open>A listener serves while the process runs and its goroutine is inside the serve call.\<close>

definition is_serving :: "state \<Rightarrow> listener \<Rightarrow> bool" where
  "is_serving s l = (status s = Running \<and> is_serving_phase (map_of (goroutines s) l))"

subsection \<open>Dispatch of a request\<close>

text \<open>
  A server whose \<^verbatim>\<open>Handler\<close> is nil serves \<^verbatim>\<open>http.DefaultServeMux\<close>, so what a request
  reaches is decided by \<^verbatim>\<open>ServeMux.Handler\<close> of the standard library. No pattern that
  \<^verbatim>\<open>main\<close> registers names a host, so the host of the request plays no part.

  \<^verbatim>\<open>path.Clean\<close> on a rooted path: the path is cut at its slashes, empty elements and
  \<^verbatim>\<open>.\<close> are dropped, \<^verbatim>\<open>..\<close> drops the element before it, or nothing at the root, and
  the elements that remain are joined again behind the root slash.
\<close>

fun split_slash :: "string \<Rightarrow> string list" where
  "split_slash [] = [[]]"
| "split_slash (c # cs) =
     (if c = CHR ''/'' then [] # split_slash cs
      else (case split_slash cs of [] \<Rightarrow> [[c]] | g # gs \<Rightarrow> (c # g) # gs))"

fun clean_elements :: "string list \<Rightarrow> string list \<Rightarrow> string list" where
  "clean_elements kept [] = rev kept"
| "clean_elements kept (g # gs) =
     (if g = [] \<or> g = ''.'' then clean_elements kept gs
      else if g = ''..'' then clean_elements (tl kept) gs
      else clean_elements (g # kept) gs)"

definition path_Clean :: "string \<Rightarrow> string" where
  "path_Clean p =
     (case clean_elements [] (split_slash p) of
        [] \<Rightarrow> ''/''
      | g # gs \<Rightarrow> concat (map (\<lambda>e. CHR ''/'' # e) (g # gs)))"

text \<open>
  \<^verbatim>\<open>cleanPath\<close> of \<^verbatim>\<open>net/http\<close>: the empty path is the root, a path without a leading slash
  gets one, and a trailing slash that \<^verbatim>\<open>path.Clean\<close> removed is put back.
\<close>

definition cleanPath :: "string \<Rightarrow> string" where
  "cleanPath p =
     (if p = [] then ''/''
      else
        (let p = (if hd p \<noteq> CHR ''/'' then CHR ''/'' # p else p);
             np = path_Clean p
         in if last p = CHR ''/'' \<and> np \<noteq> ''/''
            then (if length p = length np + 1 \<and> prefix np p then p else np @ ''/'')
            else np))"

text \<open>
  \<^verbatim>\<open>ServeMux.match\<close>: the pattern equal to the path when there is one, else the longest
  registered pattern that ends in a slash and is a prefix of the path.
\<close>

definition longest :: "(string \<times> val) \<Rightarrow> (string \<times> val) list \<Rightarrow> (string \<times> val)" where
  "longest e es = fold (\<lambda>x b. if length (fst b) < length (fst x) then x else b) es e"

definition mux_match :: "(string \<times> val) list \<Rightarrow> string \<Rightarrow> val option" where
  "mux_match m path =
     (case map_of m path of
        Some h \<Rightarrow> Some h
      | None \<Rightarrow>
         (case filter (\<lambda>(p, h). p \<noteq> [] \<and> last p = CHR ''/'' \<and> prefix p path) m of
            [] \<Rightarrow> None
          | e # es \<Rightarrow> Some (snd (longest e es))))"

text \<open>
  What a request is answered by: a registered handler, the multiplexer's own permanent
  redirect to another path, or its not-found handler.
\<close>

datatype dispatch = Found val | Redirect string | NotFound

definition mux_handler :: "(string \<times> val) list \<Rightarrow> string \<Rightarrow> dispatch" where
  "mux_handler m path = (case mux_match m path of Some h \<Rightarrow> Found h | None \<Rightarrow> NotFound)"

text \<open>
  \<^verbatim>\<open>redirectToPathSlash\<close>: the path is not registered, the path with a slash added is,
  and the path does not end in a slash already.
\<close>

definition redirectToPathSlash :: "(string \<times> val) list \<Rightarrow> string \<Rightarrow> bool" where
  "redirectToPathSlash m path =
     (map_of m path = None \<and> path \<noteq> [] \<and> map_of m (path @ ''/'') \<noteq> None \<and>
      last path \<noteq> CHR ''/'')"

text \<open>
  \<^verbatim>\<open>ServeMux.Handler\<close>. The path of a \<^verbatim>\<open>CONNECT\<close> request is matched as it is. The path of
  any other request is cleaned first, and a path that is not its own clean form is
  answered by a redirect to the clean form.
\<close>

definition ServeMux_Handler :: "(string \<times> val) list \<Rightarrow> bool \<Rightarrow> string \<Rightarrow> dispatch" where
  "ServeMux_Handler m connect url_path =
     (if connect
      then (if redirectToPathSlash m url_path then Redirect (url_path @ ''/'')
            else mux_handler m url_path)
      else
        (let path = cleanPath url_path
         in if redirectToPathSlash m path then Redirect (path @ ''/'')
            else if path \<noteq> url_path then Redirect path
            else mux_handler m url_path))"

definition serverHandler :: "server \<Rightarrow> state \<Rightarrow> bool \<Rightarrow> string \<Rightarrow> dispatch" where
  "serverHandler sv s connect url_path =
     (case Handler sv of
        None \<Rightarrow> ServeMux_Handler (DefaultServeMux s) connect url_path
      | Some h \<Rightarrow> Found h)"



subsection \<open>Reading the log\<close>

text \<open>
  The object a value is taken from: \<^verbatim>\<open>federation.Client\<close> and \<^verbatim>\<open>&keyRing\<close> are taken from
  \<^verbatim>\<open>federation\<close> and \<^verbatim>\<open>keyRing\<close>.
\<close>

fun root :: "val \<Rightarrow> val" where
  "root (FieldOf v f) = root v"
| "root (Ref v) = root v"
| "root v = v"

text \<open>\<open>made_by pre f k v\<close>: among the events \<open>pre\<close>, a call of \<open>f\<close> returned \<open>v\<close> as its result number \<open>k\<close>.\<close>

fun returns :: "func \<Rightarrow> nat \<Rightarrow> val \<Rightarrow> event \<Rightarrow> bool" where
  "returns f k v (Call g as rs) = (g = f \<and> k < length rs \<and> rs ! k = v)"
| "returns f k v _ = False"

definition made_by :: "event list \<Rightarrow> func \<Rightarrow> nat \<Rightarrow> val \<Rightarrow> bool" where
  "made_by pre f k v = list_ex (returns f k v) pre"

text \<open>
  A dependency, named by the function that constructs it and the position of the result,
  is met by the arguments \<open>as\<close> of a call when one of them is not nil and is taken from
  an object that the constructor returned earlier.
\<close>

definition dep_met :: "event list \<Rightarrow> val list \<Rightarrow> func \<times> nat \<Rightarrow> bool" where
  "dep_met pre as d = list_ex (\<lambda>a. a \<noteq> NilV \<and> made_by pre (fst d) (snd d) (root a)) as"

text \<open>An argument is a literal, or is taken from an object that some earlier call returned.\<close>

fun returned :: "val \<Rightarrow> event \<Rightarrow> bool" where
  "returned v (Call g as rs) = (v \<in> set rs)"
| "returned v _ = False"

fun arg_constructed :: "event list \<Rightarrow> val \<Rightarrow> bool" where
  "arg_constructed pre (Str x) = True"
| "arg_constructed pre NilV = False"
| "arg_constructed pre a = list_ex (returned (root a)) pre"

text \<open>
  The dependencies that section 4.2 of the specification declares, steps 1 to 10, in the
  specification's order: the shared infrastructure handle, the stores, the network client
  and the key ring of step 1, then for every registrar the handles it is said to depend on.
\<close>

abbreviation "configuration \<equiv> (ParseMonolithFlags, 0::nat)"
abbreviation "shared_infrastructure \<equiv> (NewBaseDendrite, 0::nat)"
abbreviation "accounts_store \<equiv> (CreateAccountsDB, 0::nat)"
abbreviation "device_store \<equiv> (CreateDeviceDB, 0::nat)"
abbreviation "key_store \<equiv> (CreateKeyDB, 0::nat)"
abbreviation "network_client \<equiv> (CreateFederationClient, 0::nat)"
abbreviation "key_ring \<equiv> (CreateKeyRing, 0::nat)"
abbreviation "room_alias \<equiv> (SetupRoomServerComponent, 0::nat)"
abbreviation "room_input \<equiv> (SetupRoomServerComponent, 1::nat)"
abbreviation "room_query \<equiv> (SetupRoomServerComponent, 2::nat)"
abbreviation "edu_input \<equiv> (SetupEDUServerComponent, 0::nat)"
abbreviation "idempotency_cache \<equiv> (transactions_New, 0::nat)"
abbreviation "appservice_query \<equiv> (SetupAppServiceAPIComponent, 0::nat)"
abbreviation "federation_sender \<equiv> (SetupFederationSenderComponent, 0::nat)"
abbreviation "edu_producer \<equiv> (NewEDUServerProducer, 0::nat)"
abbreviation "public_rooms_store \<equiv> (NewPublicRoomsServerDatabase, 0::nat)"

fun declared_deps :: "func \<Rightarrow> (func \<times> nat) list" where
  "declared_deps NewBaseDendrite = [configuration]"
| "declared_deps CreateAccountsDB = [shared_infrastructure]"
| "declared_deps CreateDeviceDB = [shared_infrastructure]"
| "declared_deps CreateKeyDB = [shared_infrastructure]"
| "declared_deps CreateFederationClient = [shared_infrastructure]"
| "declared_deps CreateKeyRing = [key_store, network_client, configuration]"
| "declared_deps SetupRoomServerComponent = [shared_infrastructure]"
| "declared_deps SetupEDUServerComponent = [shared_infrastructure]"
| "declared_deps SetupAppServiceAPIComponent =
     [accounts_store, device_store, network_client, room_alias, room_query, idempotency_cache]"
| "declared_deps SetupFederationSenderComponent = [network_client, room_query]"
| "declared_deps SetupClientAPIComponent =
     [shared_infrastructure, accounts_store, device_store, network_client, key_ring,
      room_alias, room_input, room_query, edu_input, appservice_query, federation_sender]"
| "declared_deps SetupFederationAPIComponent =
     [room_alias, room_input, room_query, appservice_query, federation_sender, edu_producer]"
| "declared_deps NewEDUServerProducer = [edu_input]"
| "declared_deps SetupMediaAPIComponent = [device_store]"
| "declared_deps SetupPublicRoomsAPIComponent =
     [public_rooms_store, room_query, network_client]"
| "declared_deps SetupSyncAPIComponent =
     [device_store, accounts_store, room_query, network_client, configuration]"
| "declared_deps _ = []"

text \<open>The nine registrars, and the events that assemble the router surface or launch a listener.\<close>

definition registrars :: "func list" where
  "registrars =
     [SetupRoomServerComponent, SetupEDUServerComponent, SetupAppServiceAPIComponent,
      SetupFederationSenderComponent, SetupClientAPIComponent, SetupFederationAPIComponent,
      SetupMediaAPIComponent, SetupPublicRoomsAPIComponent, SetupSyncAPIComponent]"

fun is_assembly :: "event \<Rightarrow> bool" where
  "is_assembly (Call f as rs) =
     (f \<in> set registrars \<or> f = WrapHandlerInCORS \<or> f = WrapHandlerInBasicAuth)"
| "is_assembly (HttpHandle p h) = True"
| "is_assembly _ = False"

fun is_launch :: "event \<Rightarrow> bool" where
  "is_launch (Go l) = True"
| "is_launch (ListenAndServe sv) = True"
| "is_launch (ListenAndServeTLS sv c k) = True"
| "is_launch _ = False"

fun is_log :: "event \<Rightarrow> bool" where
  "is_log (Log lv m e) = True"
| "is_log _ = False"

text \<open>The results of the calls of \<open>f\<close>, and the functions that receive \<open>v\<close> as an argument.\<close>

fun results_of_event :: "func \<Rightarrow> event \<Rightarrow> val list" where
  "results_of_event f (Call g as rs) = (if g = f then rs else [])"
| "results_of_event f _ = []"

definition results_of :: "func \<Rightarrow> event list \<Rightarrow> val list" where
  "results_of f tr = concat (map (results_of_event f) tr)"

fun receiver_of_event :: "val \<Rightarrow> event \<Rightarrow> func list" where
  "receiver_of_event v (Call g as rs) = (if v \<in> set as then [g] else [])"
| "receiver_of_event v _ = []"

definition receivers :: "val \<Rightarrow> event list \<Rightarrow> func list" where
  "receivers v tr = concat (map (receiver_of_event v) tr)"

text \<open>One cache instance is handed to both the application-service bridge and the client API.\<close>

definition shares_cache :: "event list \<Rightarrow> bool" where
  "shares_cache tr =
     list_ex (\<lambda>c. SetupAppServiceAPIComponent \<in> set (receivers c tr) \<and>
                  SetupClientAPIComponent \<in> set (receivers c tr))
       (results_of transactions_New tr)"

text \<open>
  \<open>call_ok pre e\<close>: when the event \<open>e\<close> is a call, and \<open>pre\<close> are the events before it, every
  dependency declared for the called function is met by its arguments, and every
  argument other than a literal \<^verbatim>\<open>nil\<close> is a literal or is taken from an object returned
  earlier. \<open>each_after Q pre es\<close>: every event of \<open>es\<close> satisfies \<open>Q\<close> with the events before it.
\<close>

fun call_ok :: "event list \<Rightarrow> event \<Rightarrow> bool" where
  "call_ok pre (Call r as rs) =
     (list_all (dep_met pre as) (declared_deps r) \<and>
      list_all (\<lambda>a. a = NilV \<or> arg_constructed pre a) as)"
| "call_ok pre _ = True"

fun each_after :: "(event list \<Rightarrow> event \<Rightarrow> bool) \<Rightarrow> event list \<Rightarrow> event list \<Rightarrow> bool" where
  "each_after Q pre [] = True"
| "each_after Q pre (e # es) = (Q pre e \<and> each_after Q (pre @ [e]) es)"

text \<open>
  The events where the plaintext server enters its serve call, and a count that the steps
  of the goroutines never raise: these events so far, plus one while the plaintext
  goroutine has not run yet.
\<close>

fun is_plain_serve :: "event \<Rightarrow> bool" where
  "is_plain_serve (ListenAndServe sv) = True"
| "is_plain_serve _ = False"

definition serve_budget :: "state \<Rightarrow> nat" where
  "serve_budget s = length (filter is_plain_serve (trace s)) +
     (if map_of (goroutines s) Plaintext = Some Spawned then 1 else 0)"

text \<open>The events that the listener goroutines add to the log.\<close>

fun goroutine_event :: "event \<Rightarrow> bool" where
  "goroutine_event (Log lv m e) = True"
| "goroutine_event (ListenAndServe sv) = True"
| "goroutine_event (ListenAndServeTLS sv c k) = True"
| "goroutine_event (Exit n) = True"
| "goroutine_event _ = False"

subsection \<open>Example environments\<close>

text \<open>
  Four command lines and environments: no flag at all; certificate, key and diagnostics;
  a certificate without a key; and a public rooms database that refuses the connection.
  The timeout is five minutes.
\<close>

definition world_plain :: world where
  "world_plain = \<lparr>flags = Map.empty, Metrics_Enabled = False, publicRoomsDB_err = None,
                   HTTPServerTimeout = 300000000000\<rparr>"

definition world_tls :: world where
  "world_tls = \<lparr>flags = [''tls-cert'' \<mapsto> ''server.crt'', ''tls-key'' \<mapsto> ''server.key''],
                 Metrics_Enabled = True, publicRoomsDB_err = None,
                 HTTPServerTimeout = 300000000000\<rparr>"

definition world_cert_only :: world where
  "world_cert_only = \<lparr>flags = [''tls-cert'' \<mapsto> ''server.crt''],
                 Metrics_Enabled = False, publicRoomsDB_err = None,
                 HTTPServerTimeout = 300000000000\<rparr>"

definition world_db_down :: world where
  "world_db_down = \<lparr>flags = [''tls-cert'' \<mapsto> ''server.crt'', ''tls-key'' \<mapsto> ''server.key''],
                 Metrics_Enabled = True, publicRoomsDB_err = Some ''connection refused'',
                 HTTPServerTimeout = 300000000000\<rparr>"

section \<open>Properties\<close>

subsection \<open>The statements on an explicit state\<close>

lemma emit_rec [simp]:
  "emit e \<lparr>trace = t, next_obj = n, deferred = d, DefaultServeMux = m, goroutines = g, status = st\<rparr>
   = \<lparr>trace = t @ [e], next_obj = n, deferred = d, DefaultServeMux = m, goroutines = g, status = st\<rparr>"
  by (simp add: emit_def)

lemma call0_rec [simp]:
  "call0 f as \<lparr>trace = t, next_obj = n, deferred = d, DefaultServeMux = m, goroutines = g, status = st\<rparr>
   = \<lparr>trace = t @ [Call f as []], next_obj = n, deferred = d, DefaultServeMux = m, goroutines = g, status = st\<rparr>"
  by (simp add: call0_def)

lemma call1_rec [simp]:
  "call1 f as \<lparr>trace = t, next_obj = n, deferred = d, DefaultServeMux = m, goroutines = g, status = st\<rparr>
   = (Obj f n, \<lparr>trace = t @ [Call f as [Obj f n]], next_obj = n + 1, deferred = d,
        DefaultServeMux = m, goroutines = g, status = st\<rparr>)"
  by (simp add: call1_def Let_def)

lemma call3_rec [simp]:
  "call3 f as \<lparr>trace = t, next_obj = n, deferred = d, DefaultServeMux = m, goroutines = g, status = st\<rparr>
   = ((Obj f n, Obj f (n + 1), Obj f (n + 2)),
      \<lparr>trace = t @ [Call f as [Obj f n, Obj f (n + 1), Obj f (n + 2)]], next_obj = n + 3,
        deferred = d, DefaultServeMux = m, goroutines = g, status = st\<rparr>)"
  by (simp add: call3_def Let_def)

lemma wrap_cors_rec [simp]:
  "wrap_cors h \<lparr>trace = t, next_obj = n, deferred = d, DefaultServeMux = m, goroutines = g, status = st\<rparr>
   = (InCORS h, \<lparr>trace = t @ [Call WrapHandlerInCORS [h] [InCORS h]], next_obj = n,
        deferred = d, DefaultServeMux = m, goroutines = g, status = st\<rparr>)"
  by (simp add: wrap_cors_def)

lemma wrap_basic_auth_rec [simp]:
  "wrap_basic_auth h b \<lparr>trace = t, next_obj = n, deferred = d, DefaultServeMux = m, goroutines = g, status = st\<rparr>
   = (InBasicAuth h b, \<lparr>trace = t @ [Call WrapHandlerInBasicAuth [h, b] [InBasicAuth h b]],
        next_obj = n, deferred = d, DefaultServeMux = m, goroutines = g, status = st\<rparr>)"
  by (simp add: wrap_basic_auth_def)

lemma defer_call_rec [simp]:
  "defer_call f as \<lparr>trace = t, next_obj = n, deferred = d, DefaultServeMux = m, goroutines = g, status = st\<rparr>
   = \<lparr>trace = t @ [Defer f as], next_obj = n, deferred = (f, as) # d, DefaultServeMux = m,
       goroutines = g, status = st\<rparr>"
  by (simp add: defer_call_def)

lemma os_Exit_rec [simp]:
  "os_Exit c \<lparr>trace = t, next_obj = n, deferred = d, DefaultServeMux = m, goroutines = g, status = st\<rparr>
   = \<lparr>trace = t @ [Exit c], next_obj = n, deferred = d, DefaultServeMux = m, goroutines = g,
       status = Exited c\<rparr>"
  by (simp add: os_Exit_def)

lemma run_deferred_rec [simp]:
  "run_deferred \<lparr>trace = t, next_obj = n, deferred = d, DefaultServeMux = m, goroutines = g, status = st\<rparr>
   = fold (\<lambda>(f, as). call0 f as) d
       \<lparr>trace = t, next_obj = n, deferred = [], DefaultServeMux = m, goroutines = g, status = st\<rparr>"
  by (simp add: run_deferred_def)

lemma http_Handle_rec [simp]:
  "http_Handle p h \<lparr>trace = t, next_obj = n, deferred = d, DefaultServeMux = m, goroutines = g, status = st\<rparr>
   = \<lparr>trace = t @ [HttpHandle p h], next_obj = n, deferred = d, DefaultServeMux = m @ [(p, h)],
       goroutines = g, status = st\<rparr>"
  by (simp add: http_Handle_def)

lemma go_rec [simp]:
  "go l \<lparr>trace = t, next_obj = n, deferred = d, DefaultServeMux = m, goroutines = g, status = st\<rparr>
   = \<lparr>trace = t @ [Go l], next_obj = n, deferred = d, DefaultServeMux = m,
       goroutines = g @ [(l, Spawned)], status = st\<rparr>"
  by (simp add: go_def)

text \<open>The final state of \<^verbatim>\<open>main\<close> when the public rooms database does not connect.\<close>

lemma main_fail:
  "publicRoomsDB_err w = Some err \<Longrightarrow> main w =
   \<lparr>trace =
    [Call ParseMonolithFlags [] [Obj ParseMonolithFlags 0],
     Call NewBaseDendrite [Obj ParseMonolithFlags 0, Str ''Monolith''] [Obj NewBaseDendrite 1],
     Defer base_Close [Obj NewBaseDendrite 1],
     Call CreateAccountsDB [Obj NewBaseDendrite 1] [Obj CreateAccountsDB 2],
     Call CreateDeviceDB [Obj NewBaseDendrite 1] [Obj CreateDeviceDB 3],
     Call CreateKeyDB [Obj NewBaseDendrite 1] [Obj CreateKeyDB 4],
     Call CreateFederationClient [Obj NewBaseDendrite 1] [Obj CreateFederationClient 5],
     Call CreateKeyRing
      [FieldOf (Obj CreateFederationClient 5) ''Client'', Obj CreateKeyDB 4,
       FieldOf (Obj ParseMonolithFlags 0) ''Matrix.KeyPerspectives'']
      [Obj CreateKeyRing 6],
     Call SetupRoomServerComponent [Obj NewBaseDendrite 1]
      [Obj SetupRoomServerComponent 7, Obj SetupRoomServerComponent 8,
       Obj SetupRoomServerComponent 9],
     Call cache_New [] [Obj cache_New 10],
     Call SetupEDUServerComponent [Obj NewBaseDendrite 1, Obj cache_New 10]
      [Obj SetupEDUServerComponent 11],
     Call transactions_New [] [Obj transactions_New 12],
     Call SetupAppServiceAPIComponent
      [Obj NewBaseDendrite 1, Obj CreateAccountsDB 2, Obj CreateDeviceDB 3,
       Obj CreateFederationClient 5, Obj SetupRoomServerComponent 7,
       Obj SetupRoomServerComponent 9, Obj transactions_New 12]
      [Obj SetupAppServiceAPIComponent 13],
     Call SetupFederationSenderComponent
      [Obj NewBaseDendrite 1, Obj CreateFederationClient 5, Obj SetupRoomServerComponent 9]
      [Obj SetupFederationSenderComponent 14],
     Call transactions_New [] [Obj transactions_New 15],
     Call SetupClientAPIComponent
      [Obj NewBaseDendrite 1, Obj CreateDeviceDB 3, Obj CreateAccountsDB 2,
       Obj CreateFederationClient 5, Ref (Obj CreateKeyRing 6),
       Obj SetupRoomServerComponent 7, Obj SetupRoomServerComponent 8,
       Obj SetupRoomServerComponent 9, Obj SetupEDUServerComponent 11,
       Obj SetupAppServiceAPIComponent 13, Obj transactions_New 15,
       Obj SetupFederationSenderComponent 14]
      [],
     Call NewEDUServerProducer [Obj SetupEDUServerComponent 11] [Obj NewEDUServerProducer 16],
     Call SetupFederationAPIComponent
      [Obj NewBaseDendrite 1, Obj CreateAccountsDB 2, Obj CreateDeviceDB 3,
       Obj CreateFederationClient 5, Ref (Obj CreateKeyRing 6),
       Obj SetupRoomServerComponent 7, Obj SetupRoomServerComponent 8,
       Obj SetupRoomServerComponent 9, Obj SetupAppServiceAPIComponent 13,
       Obj SetupFederationSenderComponent 14, Obj NewEDUServerProducer 16]
      [],
     Call SetupMediaAPIComponent [Obj NewBaseDendrite 1, Obj CreateDeviceDB 3] [],
     Call NewPublicRoomsServerDatabase
      [FieldOf (Obj NewBaseDendrite 1) ''Cfg.Database.PublicRoomsAPI''] [NilV],
     Log PanicLevel ''failed to connect to public rooms db'' (Some err),
     Panic,
     Call base_Close [Obj NewBaseDendrite 1] [],
     Exit 2],
    next_obj = 17, deferred = [], DefaultServeMux = [], goroutines = [],
    status = Exited 2\<rparr>"
  by (simp add: main_def panic_def logrus_WithError_Panicf_def init_def)

text \<open>The state in which \<^verbatim>\<open>main\<close> blocks when the database connects.\<close>

lemma main_ok:
  "publicRoomsDB_err w = None \<Longrightarrow> main w =
   \<lparr>trace =
    [Call ParseMonolithFlags [] [Obj ParseMonolithFlags 0],
     Call NewBaseDendrite [Obj ParseMonolithFlags 0, Str ''Monolith''] [Obj NewBaseDendrite 1],
     Defer base_Close [Obj NewBaseDendrite 1],
     Call CreateAccountsDB [Obj NewBaseDendrite 1] [Obj CreateAccountsDB 2],
     Call CreateDeviceDB [Obj NewBaseDendrite 1] [Obj CreateDeviceDB 3],
     Call CreateKeyDB [Obj NewBaseDendrite 1] [Obj CreateKeyDB 4],
     Call CreateFederationClient [Obj NewBaseDendrite 1] [Obj CreateFederationClient 5],
     Call CreateKeyRing
      [FieldOf (Obj CreateFederationClient 5) ''Client'', Obj CreateKeyDB 4,
       FieldOf (Obj ParseMonolithFlags 0) ''Matrix.KeyPerspectives'']
      [Obj CreateKeyRing 6],
     Call SetupRoomServerComponent [Obj NewBaseDendrite 1]
      [Obj SetupRoomServerComponent 7, Obj SetupRoomServerComponent 8,
       Obj SetupRoomServerComponent 9],
     Call cache_New [] [Obj cache_New 10],
     Call SetupEDUServerComponent [Obj NewBaseDendrite 1, Obj cache_New 10]
      [Obj SetupEDUServerComponent 11],
     Call transactions_New [] [Obj transactions_New 12],
     Call SetupAppServiceAPIComponent
      [Obj NewBaseDendrite 1, Obj CreateAccountsDB 2, Obj CreateDeviceDB 3,
       Obj CreateFederationClient 5, Obj SetupRoomServerComponent 7,
       Obj SetupRoomServerComponent 9, Obj transactions_New 12]
      [Obj SetupAppServiceAPIComponent 13],
     Call SetupFederationSenderComponent
      [Obj NewBaseDendrite 1, Obj CreateFederationClient 5, Obj SetupRoomServerComponent 9]
      [Obj SetupFederationSenderComponent 14],
     Call transactions_New [] [Obj transactions_New 15],
     Call SetupClientAPIComponent
      [Obj NewBaseDendrite 1, Obj CreateDeviceDB 3, Obj CreateAccountsDB 2,
       Obj CreateFederationClient 5, Ref (Obj CreateKeyRing 6),
       Obj SetupRoomServerComponent 7, Obj SetupRoomServerComponent 8,
       Obj SetupRoomServerComponent 9, Obj SetupEDUServerComponent 11,
       Obj SetupAppServiceAPIComponent 13, Obj transactions_New 15,
       Obj SetupFederationSenderComponent 14]
      [],
     Call NewEDUServerProducer [Obj SetupEDUServerComponent 11] [Obj NewEDUServerProducer 16],
     Call SetupFederationAPIComponent
      [Obj NewBaseDendrite 1, Obj CreateAccountsDB 2, Obj CreateDeviceDB 3,
       Obj CreateFederationClient 5, Ref (Obj CreateKeyRing 6),
       Obj SetupRoomServerComponent 7, Obj SetupRoomServerComponent 8,
       Obj SetupRoomServerComponent 9, Obj SetupAppServiceAPIComponent 13,
       Obj SetupFederationSenderComponent 14, Obj NewEDUServerProducer 16]
      [],
     Call SetupMediaAPIComponent [Obj NewBaseDendrite 1, Obj CreateDeviceDB 3] [],
     Call NewPublicRoomsServerDatabase
      [FieldOf (Obj NewBaseDendrite 1) ''Cfg.Database.PublicRoomsAPI'']
      [Obj NewPublicRoomsServerDatabase 17],
     Call SetupPublicRoomsAPIComponent
      [Obj NewBaseDendrite 1, Obj CreateDeviceDB 3, Obj NewPublicRoomsServerDatabase 17,
       Obj SetupRoomServerComponent 9, Obj CreateFederationClient 5, NilV]
      [],
     Call SetupSyncAPIComponent
      [Obj NewBaseDendrite 1, Obj CreateDeviceDB 3, Obj CreateAccountsDB 2,
       Obj SetupRoomServerComponent 9, Obj CreateFederationClient 5, Obj ParseMonolithFlags 0]
      [],
     Call WrapHandlerInCORS [FieldOf (Obj NewBaseDendrite 1) ''APIMux'']
      [InCORS (FieldOf (Obj NewBaseDendrite 1) ''APIMux'')]]
    @ (if Metrics_Enabled w then
     [Call promhttp_Handler [] [Obj promhttp_Handler 18],
      Call WrapHandlerInBasicAuth
       [Obj promhttp_Handler 18, FieldOf (Obj ParseMonolithFlags 0) ''Metrics.BasicAuth'']
       [InBasicAuth (Obj promhttp_Handler 18)
         (FieldOf (Obj ParseMonolithFlags 0) ''Metrics.BasicAuth'')],
      HttpHandle ''/metrics''
       (InBasicAuth (Obj promhttp_Handler 18)
         (FieldOf (Obj ParseMonolithFlags 0) ''Metrics.BasicAuth''))] else [])
    @ [HttpHandle ''/'' (InCORS (FieldOf (Obj NewBaseDendrite 1) ''APIMux'')), Go Plaintext]
    @ (if certFile w \<noteq> [] \<and> keyFile w \<noteq> [] then [Go TLS] else [])
    @ [Select],
    next_obj = (if Metrics_Enabled w then 19 else 18),
    deferred = [(base_Close, [Obj NewBaseDendrite 1])],
    DefaultServeMux =
      (if Metrics_Enabled w then
        [(''/metrics'', InBasicAuth (Obj promhttp_Handler 18)
            (FieldOf (Obj ParseMonolithFlags 0) ''Metrics.BasicAuth''))] else [])
      @ [(''/'', InCORS (FieldOf (Obj NewBaseDendrite 1) ''APIMux''))],
    goroutines = (Plaintext, Spawned) #
       (if certFile w \<noteq> [] \<and> keyFile w \<noteq> [] then [(TLS, Spawned)] else []),
    status = Running\<rparr>"
  by (simp add: main_def panic_def logrus_WithError_Panicf_def init_def)

text \<open>The same with the two conditions named, for proofs by cases on them.\<close>

lemma main_ok_gen:
  "publicRoomsDB_err w = None \<Longrightarrow> Metrics_Enabled w = me \<Longrightarrow>
   (certFile w \<noteq> [] \<and> keyFile w \<noteq> []) = tls \<Longrightarrow> main w =
   \<lparr>trace =
    [Call ParseMonolithFlags [] [Obj ParseMonolithFlags 0],
     Call NewBaseDendrite [Obj ParseMonolithFlags 0, Str ''Monolith''] [Obj NewBaseDendrite 1],
     Defer base_Close [Obj NewBaseDendrite 1],
     Call CreateAccountsDB [Obj NewBaseDendrite 1] [Obj CreateAccountsDB 2],
     Call CreateDeviceDB [Obj NewBaseDendrite 1] [Obj CreateDeviceDB 3],
     Call CreateKeyDB [Obj NewBaseDendrite 1] [Obj CreateKeyDB 4],
     Call CreateFederationClient [Obj NewBaseDendrite 1] [Obj CreateFederationClient 5],
     Call CreateKeyRing
      [FieldOf (Obj CreateFederationClient 5) ''Client'', Obj CreateKeyDB 4,
       FieldOf (Obj ParseMonolithFlags 0) ''Matrix.KeyPerspectives'']
      [Obj CreateKeyRing 6],
     Call SetupRoomServerComponent [Obj NewBaseDendrite 1]
      [Obj SetupRoomServerComponent 7, Obj SetupRoomServerComponent 8,
       Obj SetupRoomServerComponent 9],
     Call cache_New [] [Obj cache_New 10],
     Call SetupEDUServerComponent [Obj NewBaseDendrite 1, Obj cache_New 10]
      [Obj SetupEDUServerComponent 11],
     Call transactions_New [] [Obj transactions_New 12],
     Call SetupAppServiceAPIComponent
      [Obj NewBaseDendrite 1, Obj CreateAccountsDB 2, Obj CreateDeviceDB 3,
       Obj CreateFederationClient 5, Obj SetupRoomServerComponent 7,
       Obj SetupRoomServerComponent 9, Obj transactions_New 12]
      [Obj SetupAppServiceAPIComponent 13],
     Call SetupFederationSenderComponent
      [Obj NewBaseDendrite 1, Obj CreateFederationClient 5, Obj SetupRoomServerComponent 9]
      [Obj SetupFederationSenderComponent 14],
     Call transactions_New [] [Obj transactions_New 15],
     Call SetupClientAPIComponent
      [Obj NewBaseDendrite 1, Obj CreateDeviceDB 3, Obj CreateAccountsDB 2,
       Obj CreateFederationClient 5, Ref (Obj CreateKeyRing 6),
       Obj SetupRoomServerComponent 7, Obj SetupRoomServerComponent 8,
       Obj SetupRoomServerComponent 9, Obj SetupEDUServerComponent 11,
       Obj SetupAppServiceAPIComponent 13, Obj transactions_New 15,
       Obj SetupFederationSenderComponent 14]
      [],
     Call NewEDUServerProducer [Obj SetupEDUServerComponent 11] [Obj NewEDUServerProducer 16],
     Call SetupFederationAPIComponent
      [Obj NewBaseDendrite 1, Obj CreateAccountsDB 2, Obj CreateDeviceDB 3,
       Obj CreateFederationClient 5, Ref (Obj CreateKeyRing 6),
       Obj SetupRoomServerComponent 7, Obj SetupRoomServerComponent 8,
       Obj SetupRoomServerComponent 9, Obj SetupAppServiceAPIComponent 13,
       Obj SetupFederationSenderComponent 14, Obj NewEDUServerProducer 16]
      [],
     Call SetupMediaAPIComponent [Obj NewBaseDendrite 1, Obj CreateDeviceDB 3] [],
     Call NewPublicRoomsServerDatabase
      [FieldOf (Obj NewBaseDendrite 1) ''Cfg.Database.PublicRoomsAPI'']
      [Obj NewPublicRoomsServerDatabase 17],
     Call SetupPublicRoomsAPIComponent
      [Obj NewBaseDendrite 1, Obj CreateDeviceDB 3, Obj NewPublicRoomsServerDatabase 17,
       Obj SetupRoomServerComponent 9, Obj CreateFederationClient 5, NilV]
      [],
     Call SetupSyncAPIComponent
      [Obj NewBaseDendrite 1, Obj CreateDeviceDB 3, Obj CreateAccountsDB 2,
       Obj SetupRoomServerComponent 9, Obj CreateFederationClient 5, Obj ParseMonolithFlags 0]
      [],
     Call WrapHandlerInCORS [FieldOf (Obj NewBaseDendrite 1) ''APIMux'']
      [InCORS (FieldOf (Obj NewBaseDendrite 1) ''APIMux'')]]
    @ (if me then
     [Call promhttp_Handler [] [Obj promhttp_Handler 18],
      Call WrapHandlerInBasicAuth
       [Obj promhttp_Handler 18, FieldOf (Obj ParseMonolithFlags 0) ''Metrics.BasicAuth'']
       [InBasicAuth (Obj promhttp_Handler 18)
         (FieldOf (Obj ParseMonolithFlags 0) ''Metrics.BasicAuth'')],
      HttpHandle ''/metrics''
       (InBasicAuth (Obj promhttp_Handler 18)
         (FieldOf (Obj ParseMonolithFlags 0) ''Metrics.BasicAuth''))] else [])
    @ [HttpHandle ''/'' (InCORS (FieldOf (Obj NewBaseDendrite 1) ''APIMux'')), Go Plaintext]
    @ (if tls then [Go TLS] else [])
    @ [Select],
    next_obj = (if me then 19 else 18),
    deferred = [(base_Close, [Obj NewBaseDendrite 1])],
    DefaultServeMux =
      (if me then
        [(''/metrics'', InBasicAuth (Obj promhttp_Handler 18)
            (FieldOf (Obj ParseMonolithFlags 0) ''Metrics.BasicAuth''))] else [])
      @ [(''/'', InCORS (FieldOf (Obj NewBaseDendrite 1) ''APIMux''))],
    goroutines = (Plaintext, Spawned) #
       (if tls then [(TLS, Spawned)] else []),
    status = Running\<rparr>"
  using main_ok[of w] by simp

subsection \<open>Steps of the goroutines\<close>

lemma logrus_Info_rec [simp]:
  "logrus_Info a b \<lparr>trace = t, next_obj = n, deferred = d, DefaultServeMux = m, goroutines = g, status = st\<rparr>
   = \<lparr>trace = t @ [Log InfoLevel (a @ b) None], next_obj = n, deferred = d, DefaultServeMux = m,
       goroutines = g, status = st\<rparr>"
  by (simp add: logrus_Info_def)

lemma logrus_Fatal_rec [simp]:
  "logrus_Fatal err \<lparr>trace = t, next_obj = n, deferred = d, DefaultServeMux = m, goroutines = g, status = st\<rparr>
   = \<lparr>trace = t @ [Log FatalLevel err None, Exit 1], next_obj = n, deferred = d,
       DefaultServeMux = m, goroutines = g, status = Exited 1\<rparr>"
  by (simp add: logrus_Fatal_def)

lemma set_phase_rec [simp]:
  "set_phase l p \<lparr>trace = t, next_obj = n, deferred = d, DefaultServeMux = m, goroutines = g, status = st\<rparr>
   = \<lparr>trace = t, next_obj = n, deferred = d, DefaultServeMux = m,
       goroutines = map (\<lambda>(l', p'). if l' = l then (l', p) else (l', p')) g, status = st\<rparr>"
  by (simp add: set_phase_def)

lemma goroutine_start_rec [simp]:
  "goroutine_start w l \<lparr>trace = t, next_obj = n, deferred = d, DefaultServeMux = m, goroutines = g, status = st\<rparr>
   = \<lparr>trace = t @ [Log InfoLevel (''Listening on '' @ Addr (serv w l)) None,
                    (case l of Plaintext \<Rightarrow> ListenAndServe (serv w l)
                             | TLS \<Rightarrow> ListenAndServeTLS (serv w l) (certFile w) (keyFile w))],
       next_obj = n, deferred = d, DefaultServeMux = m,
       goroutines = map (\<lambda>(l', p'). if l' = l then (l', Serving (serv w l)) else (l', p')) g,
       status = st\<rparr>"
  by (simp add: goroutine_start_def Let_def)

lemma step_Fail:
  assumes "step w (Fail l err) s = Some s'"
  shows "s' = s\<lparr>trace := trace s @ [Log FatalLevel err None, Exit 1], status := Exited 1\<rparr>"
    and "status s = Running" and "is_serving_phase (map_of (goroutines s) l)"
  using assms by (cases s; simp add: goroutine_fail_def split: if_splits)+

lemma step_Start:
  assumes "step w (Start l) s = Some s'"
  shows "s' = s\<lparr>trace := trace s @ [Log InfoLevel (''Listening on '' @ Addr (serv w l)) None,
                    (case l of Plaintext \<Rightarrow> ListenAndServe (serv w l)
                             | TLS \<Rightarrow> ListenAndServeTLS (serv w l) (certFile w) (keyFile w))],
       goroutines := map (\<lambda>(l', p'). if l' = l then (l', Serving (serv w l)) else (l', p')) (goroutines s)\<rparr>"
    and "status s = Running" and "map_of (goroutines s) l = Some Spawned"
  using assms by (cases s; simp split: if_splits)+

lemma step_stopped: "status s \<noteq> Running \<Longrightarrow> step w ev s = None"
  by (cases ev) simp_all

lemma run_append:
  "run w (xs @ ys) s = (case run w xs s of None \<Rightarrow> None | Some s' \<Rightarrow> run w ys s')"
  by (induction xs arbitrary: s) (auto split: option.splits)

text \<open>What a step leaves unchanged, and what it adds to the log.\<close>

lemma fst_set_phase:
  "map fst (map (\<lambda>(l', p'). if l' = l then (l', p) else (l', p')) g) = map fst g"
  by (induction g) auto

lemma step_frame:
  assumes "step w ev s = Some s'"
  shows "deferred s' = deferred s \<and> DefaultServeMux s' = DefaultServeMux s \<and>
         next_obj s' = next_obj s \<and> map fst (goroutines s') = map fst (goroutines s) \<and>
         (\<exists>ex. trace s' = trace s @ ex \<and> (\<forall>e \<in> set ex. goroutine_event e))"
proof (cases ev)
  case (Start l)
  with assms have "step w (Start l) s = Some s'" by simp
  from step_Start(1)[OF this] show ?thesis
    by (auto split: listener.splits prod.splits)
next
  case (Fail l err)
  with assms have "step w (Fail l err) s = Some s'" by simp
  from step_Fail(1)[OF this] show ?thesis by simp
qed

lemma run_frame:
  "run w evs s = Some s' \<Longrightarrow>
     deferred s' = deferred s \<and> DefaultServeMux s' = DefaultServeMux s \<and>
     next_obj s' = next_obj s \<and> map fst (goroutines s') = map fst (goroutines s) \<and>
     (\<exists>ex. trace s' = trace s @ ex \<and> (\<forall>e \<in> set ex. goroutine_event e))"
proof (induction evs arbitrary: s)
  case Nil
  then show ?case by simp
next
  case (Cons ev evs)
  then obtain s1 where s1: "step w ev s = Some s1" and r: "run w evs s1 = Some s'"
    by (auto split: option.splits)
  from step_frame[OF s1] Cons.IH[OF r] show ?case
    by (elim conjE exE) (simp, fastforce)
qed

lemmas flag_defs = httpBindAddr_def httpsBindAddr_def certFile_def keyFile_def flag_String_def

subsection \<open>Dispatch on the assembled multiplexer\<close>













subsection \<open>The servers of the goroutines\<close>

lemma map_of_set_phase:
  "map_of (map (\<lambda>(l', p'). if l' = l then (l', p) else (l', p')) g) k =
     (if k = l then map_option (\<lambda>_. p) (map_of g k) else map_of g k)"
  by (induction g) auto

lemma step_servers:
  assumes "step w ev s = Some s'"
    and "\<forall>l sv. map_of (goroutines s) l = Some (Serving sv) \<longrightarrow> sv = serv w l"
  shows "\<forall>l sv. map_of (goroutines s') l = Some (Serving sv) \<longrightarrow> sv = serv w l"
proof (cases ev)
  case (Start l0)
  with assms(1) have "step w (Start l0) s = Some s'" by simp
  from step_Start(1)[OF this] assms(2) show ?thesis
    by (auto simp add: map_of_set_phase split: if_splits)
next
  case (Fail l0 err)
  with assms(1) have "step w (Fail l0 err) s = Some s'" by simp
  from step_Fail(1)[OF this] assms(2) show ?thesis by simp
qed

lemma run_servers:
  "run w evs s = Some s' \<Longrightarrow>
   \<forall>l sv. map_of (goroutines s) l = Some (Serving sv) \<longrightarrow> sv = serv w l \<Longrightarrow>
   \<forall>l sv. map_of (goroutines s') l = Some (Serving sv) \<longrightarrow> sv = serv w l"
proof (induction evs arbitrary: s)
  case Nil
  then show ?case by simp
next
  case (Cons ev evs)
  from Cons.prems(1) obtain s1 where s1: "step w ev s = Some s1" and r: "run w evs s1 = Some s'"
    by (auto split: option.splits)
  from Cons.IH[OF r step_servers[OF s1 Cons.prems(2)]] show ?case .
qed

lemma main_none_serving:
  "\<forall>l sv. map_of (goroutines (main w)) l = Some (Serving sv) \<longrightarrow> sv = serv w l"
proof (cases "publicRoomsDB_err w")
  case None
  show ?thesis by (simp add: main_ok[OF None])
next
  case (Some err)
  show ?thesis by (simp add: main_fail[OF Some])
qed

text \<open>The plaintext server enters its serve call at most once.\<close>

lemma step_serve_budget:
  assumes "step w ev s = Some s'"
  shows "serve_budget s' \<le> serve_budget s"
proof (cases ev)
  case (Start l0)
  with assms have st: "step w (Start l0) s = Some s'" by simp
  note s' = step_Start(1)[OF st] and sp = step_Start(3)[OF st]
  show ?thesis
  proof (cases l0)
    case Plaintext
    with sp s' show ?thesis by (simp add: serve_budget_def map_of_set_phase)
  next
    case TLS
    with s' show ?thesis by (simp add: serve_budget_def map_of_set_phase)
  qed
next
  case (Fail l0 err)
  with assms have "step w (Fail l0 err) s = Some s'" by simp
  from step_Fail(1)[OF this] show ?thesis by (simp add: serve_budget_def)
qed

lemma run_serve_budget:
  "run w evs s = Some s' \<Longrightarrow> serve_budget s' \<le> serve_budget s"
proof (induction evs arbitrary: s)
  case Nil
  then show ?case by simp
next
  case (Cons ev evs)
  then obtain s1 where s1: "step w ev s = Some s1" and r: "run w evs s1 = Some s'"
    by (auto split: option.splits)
  from step_serve_budget[OF s1] Cons.IH[OF r] show ?case by simp
qed

subsection \<open>The serve call of the TLS goroutine\<close>

text \<open>
  Every entry into \<^verbatim>\<open>ListenAndServeTLS\<close> in the log is the one of the TLS goroutine's body,
  with its server value and the two files of the flags, and the TLS goroutine exists.
\<close>

lemma step_tls_serve:
  assumes "step w ev s = Some s'"
    and "\<forall>sv c k. ListenAndServeTLS sv c k \<in> set (trace s) \<longrightarrow>
           sv = serv w TLS \<and> c = certFile w \<and> k = keyFile w \<and> TLS \<in> fst ` set (goroutines s)"
  shows "\<forall>sv c k. ListenAndServeTLS sv c k \<in> set (trace s') \<longrightarrow>
           sv = serv w TLS \<and> c = certFile w \<and> k = keyFile w \<and> TLS \<in> fst ` set (goroutines s')"
proof -
  from step_frame[OF assms(1)] have "map fst (goroutines s') = map fst (goroutines s)" by blast
  then have "set (map fst (goroutines s')) = set (map fst (goroutines s))" by simp
  then have dom: "fst ` set (goroutines s') = fst ` set (goroutines s)" by simp
  show ?thesis
  proof (cases ev)
    case (Start l0)
    with assms(1) have st: "step w (Start l0) s = Some s'" by simp
    note tr = step_Start(1)[OF st] and sp = step_Start(3)[OF st]
    show ?thesis
    proof (cases l0)
      case Plaintext
      with tr have "set (trace s') = set (trace s) \<union>
        {Log InfoLevel (''Listening on '' @ Addr (serv w Plaintext)) None,
         ListenAndServe (serv w Plaintext)}" by auto
      with assms(2) dom show ?thesis by auto
    next
      case TLS
      with sp have "(TLS, Spawned) \<in> set (goroutines s)" by (simp add: map_of_SomeD)
      then have "TLS \<in> fst ` set (goroutines s)" by force
      moreover from TLS tr have "set (trace s') = set (trace s) \<union>
        {Log InfoLevel (''Listening on '' @ Addr (serv w TLS)) None,
         ListenAndServeTLS (serv w TLS) (certFile w) (keyFile w)}" by auto
      ultimately show ?thesis using assms(2) dom by auto
    qed
  next
    case (Fail l0 err)
    with assms(1) have "step w (Fail l0 err) s = Some s'" by simp
    from step_Fail(1)[OF this] have "set (trace s') = set (trace s) \<union>
        {Log FatalLevel err None, Exit 1}" by auto
    with assms(2) dom show ?thesis by auto
  qed
qed

lemma run_tls_serve:
  "run w evs s = Some s' \<Longrightarrow>
   \<forall>sv c k. ListenAndServeTLS sv c k \<in> set (trace s) \<longrightarrow>
      sv = serv w TLS \<and> c = certFile w \<and> k = keyFile w \<and> TLS \<in> fst ` set (goroutines s) \<Longrightarrow>
   \<forall>sv c k. ListenAndServeTLS sv c k \<in> set (trace s') \<longrightarrow>
      sv = serv w TLS \<and> c = certFile w \<and> k = keyFile w \<and> TLS \<in> fst ` set (goroutines s')"
proof (induction evs arbitrary: s)
  case Nil
  then show ?case by simp
next
  case (Cons ev evs)
  from Cons.prems(1) obtain s1 where s1: "step w ev s = Some s1" and r: "run w evs s1 = Some s'"
    by (auto split: option.splits)
  from Cons.IH[OF r step_tls_serve[OF s1 Cons.prems(2)]] show ?case .
qed

lemma main_no_tls_serve:
  "\<forall>sv c k. ListenAndServeTLS sv c k \<in> set (trace (main w)) \<longrightarrow>
      sv = serv w TLS \<and> c = certFile w \<and> k = keyFile w \<and> TLS \<in> fst ` set (goroutines (main w))"
proof (cases "publicRoomsDB_err w")
  case None
  obtain me tls where me: "Metrics_Enabled w = me"
    and tls: "(certFile w \<noteq> [] \<and> keyFile w \<noteq> []) = tls" by simp
  note m = main_ok_gen[OF None me tls]
  show ?thesis by (cases me; cases tls; simp add: m)
next
  case (Some err)
  show ?thesis by (simp add: main_fail[OF Some])
qed

lemma main_tls_goroutine:
  assumes "TLS \<in> fst ` set (goroutines (main w))"
  shows "certFile w \<noteq> [] \<and> keyFile w \<noteq> []"
proof (cases "publicRoomsDB_err w")
  case None
  from assms show ?thesis by (auto simp add: main_ok[OF None] split: if_splits)
next
  case (Some err)
  from assms show ?thesis by (simp add: main_fail[OF Some])
qed

lemma run_goroutines_dom:
  assumes "run w evs s = Some s'"
  shows "fst ` set (goroutines s') = fst ` set (goroutines s)"
proof -
  from run_frame[OF assms] have "map fst (goroutines s') = map fst (goroutines s)" by blast
  then have "set (map fst (goroutines s')) = set (map fst (goroutines s))" by simp
  then show ?thesis by simp
qed

lemma serving_in_dom:
  assumes "is_serving s l"
  shows "l \<in> fst ` set (goroutines s)"
proof -
  from assms obtain p where "map_of (goroutines s) l = Some p"
    by (cases "map_of (goroutines s) l") (auto simp add: is_serving_def)
  then have "(l, p) \<in> set (goroutines s)" by (rule map_of_SomeD)
  then show ?thesis by force
qed

subsection \<open>Positions in the log\<close>

lemma after_prefix:
  assumes "tr = pre @ post" and "i < length tr" and "P (tr ! i)" and "\<forall>e \<in> set pre. \<not> P e"
  shows "length pre \<le> i"
proof (rule ccontr)
  assume "\<not> length pre \<le> i"
  then have "i < length pre" by simp
  with assms(1) have "tr ! i = pre ! i" by (simp add: nth_append)
  with \<open>i < length pre\<close> assms(4) have "\<not> P (tr ! i)" by simp
  with assms(3) show False by simp
qed

lemma prefix_in_take:
  assumes "tr = pre @ post" and "length pre \<le> i"
  shows "set pre \<subseteq> set (take i tr)"
  using assms by (simp add: take_append)

lemma suffix_nth:
  assumes "tr = pre @ post" and "length pre \<le> j" and "j < length tr"
  shows "tr ! j \<in> set post"
proof -
  from assms have "tr ! j = post ! (j - length pre)" "j - length pre < length post"
    by (simp_all add: nth_append)
  then show ?thesis by simp
qed

subsection \<open>Every call after what it depends on\<close>

lemma each_after_nth:
  "each_after Q pre es \<Longrightarrow> i < length es \<Longrightarrow> Q (pre @ take i es) (es ! i)"
proof (induction es arbitrary: pre i)
  case Nil
  then show ?case by simp
next
  case (Cons e es)
  show ?case
  proof (cases i)
    case 0
    with Cons.prems show ?thesis by simp
  next
    case (Suc k)
    with Cons.prems have "each_after Q (pre @ [e]) es" "k < length es" by simp_all
    from Cons.IH[OF this] Suc show ?thesis by simp
  qed
qed

lemma main_calls_ok: "each_after call_ok [] (trace (main w))"
proof (cases "publicRoomsDB_err w")
  case (Some err)
  show ?thesis
    by (simp add: main_fail[OF Some] dep_met_def made_by_def)
next
  case None
  obtain me tls where me: "Metrics_Enabled w = me"
    and tls: "(certFile w \<noteq> [] \<and> keyFile w \<noteq> []) = tls" by simp
  note m = main_ok_gen[OF None me tls]
  show ?thesis
    by (cases me; cases tls; simp add: m dep_met_def made_by_def)
qed

text \<open>
  The one argument that is the literal \<^verbatim>\<open>nil\<close>: the sixth and last of the public rooms
  registrar, which section 4.2 does not list among that registrar's dependencies.
\<close>

lemma nil_argument_only_public_rooms:
  assumes "Call r as rs \<in> set (trace (main w))" and "NilV \<in> set as"
  shows "r = SetupPublicRoomsAPIComponent \<and> length as = 6 \<and> as ! 5 = NilV \<and>
         NilV \<notin> set (take 5 as)"
proof (cases "publicRoomsDB_err w")
  case (Some err)
  from assms show ?thesis by (auto simp add: main_fail[OF Some])
next
  case None
  obtain me tls where me: "Metrics_Enabled w = me"
    and tls: "(certFile w \<noteq> [] \<and> keyFile w \<noteq> []) = tls" by simp
  note m = main_ok_gen[OF None me tls]
  from assms show ?thesis by (cases me; cases tls; auto simp add: m)
qed

section \<open>The claims\<close>

text \<open>
  Claim C1. At every call in the log of \<^verbatim>\<open>main\<close>, every dependency that section 4.2
  declares for the called function is among its arguments, not nil, and taken from an
  object that the constructor of that dependency returned at an earlier position of the
  log. Moreover every argument of every call, the literal \<^verbatim>\<open>nil\<close> apart, is a literal or
  is taken from an object returned at an earlier position.
\<close>

theorem build_order_respects_dependencies:
  assumes "i < length (trace (main w))" and "trace (main w) ! i = Call r as rs"
  shows "(\<forall>d \<in> set (declared_deps r). dep_met (take i (trace (main w))) as d) \<and>
         (\<forall>a \<in> set as. a \<noteq> NilV \<longrightarrow> arg_constructed (take i (trace (main w))) a)"
proof -
  from each_after_nth[OF main_calls_ok assms(1)] assms(2)
  have "call_ok (take i (trace (main w))) (Call r as rs)" by simp
  then show ?thesis by (auto simp add: list_all_iff)
qed

theorem build_order_respects_dependencies_witness:
  "15 < length (trace (main world_plain)) \<and>
   trace (main world_plain) ! 15 =
     Call SetupClientAPIComponent
      [Obj NewBaseDendrite 1, Obj CreateDeviceDB 3, Obj CreateAccountsDB 2,
       Obj CreateFederationClient 5, Ref (Obj CreateKeyRing 6),
       Obj SetupRoomServerComponent 7, Obj SetupRoomServerComponent 8,
       Obj SetupRoomServerComponent 9, Obj SetupEDUServerComponent 11,
       Obj SetupAppServiceAPIComponent 13, Obj transactions_New 15,
       Obj SetupFederationSenderComponent 14] [] \<and>
   key_ring \<in> set (declared_deps SetupClientAPIComponent) \<and>
   dep_met (take 15 (trace (main world_plain)))
      [Obj NewBaseDendrite 1, Obj CreateDeviceDB 3, Obj CreateAccountsDB 2,
       Obj CreateFederationClient 5, Ref (Obj CreateKeyRing 6),
       Obj SetupRoomServerComponent 7, Obj SetupRoomServerComponent 8,
       Obj SetupRoomServerComponent 9, Obj SetupEDUServerComponent 11,
       Obj SetupAppServiceAPIComponent 13, Obj transactions_New 15,
       Obj SetupFederationSenderComponent 14] key_ring"
proof -
  have ok: "publicRoomsDB_err world_plain = None" by (simp add: world_plain_def)
  have i: "15 < length (trace (main world_plain))" by (simp add: main_ok[OF ok])
  have c: "trace (main world_plain) ! 15 =
     Call SetupClientAPIComponent
      [Obj NewBaseDendrite 1, Obj CreateDeviceDB 3, Obj CreateAccountsDB 2,
       Obj CreateFederationClient 5, Ref (Obj CreateKeyRing 6),
       Obj SetupRoomServerComponent 7, Obj SetupRoomServerComponent 8,
       Obj SetupRoomServerComponent 9, Obj SetupEDUServerComponent 11,
       Obj SetupAppServiceAPIComponent 13, Obj transactions_New 15,
       Obj SetupFederationSenderComponent 14] []" by (simp add: main_ok[OF ok])
  have d: "key_ring \<in> set (declared_deps SetupClientAPIComponent)" by simp
  from build_order_respects_dependencies[OF i c] d i c show ?thesis by blast
qed

text \<open>
  Claim C2. Take any state that the listener goroutines reach after \<^verbatim>\<open>main\<close> and any
  position of its log where a listener goroutine is launched or enters its serve call.
  Before that position the log holds a call of each of the nine registrars, the CORS
  wrapping of \<^verbatim>\<open>base.APIMux\<close>, the installation of the wrapped handler on \<^verbatim>\<open>/\<close> and, when
  diagnostics are enabled, the installation of \<^verbatim>\<open>/metrics\<close>. From that position on the log
  holds no registrar call, no wrapping and no installation, and the multiplexer is the
  one \<^verbatim>\<open>main\<close> assembled.
\<close>

theorem router_assembled_before_listeners:
  assumes "run w evs (main w) = Some s"
    and "i < length (trace s)" and "is_launch (trace s ! i)"
  shows "(\<forall>r \<in> set registrars. \<exists>as rs. Call r as rs \<in> set (take i (trace s))) \<and>
         (\<exists>h. Call WrapHandlerInCORS [h] [InCORS h] \<in> set (take i (trace s)) \<and>
              HttpHandle ''/'' (InCORS h) \<in> set (take i (trace s))) \<and>
         (Metrics_Enabled w \<longrightarrow> (\<exists>h. HttpHandle ''/metrics'' h \<in> set (take i (trace s)))) \<and>
         (\<forall>j. i \<le> j \<and> j < length (trace s) \<longrightarrow> \<not> is_assembly (trace s ! j)) \<and>
         DefaultServeMux s = DefaultServeMux (main w)"
proof (cases "publicRoomsDB_err w")
  case (Some err)
  note m = main_fail[OF Some]
  have "status (main w) \<noteq> Running" by (simp add: m)
  then have "evs = []" using assms(1) by (cases evs) (simp_all add: step_stopped)
  with assms(1) have "s = main w" by simp
  with assms(2,3) have "\<exists>e \<in> set (trace (main w)). is_launch e" by auto
  then have False by (simp add: m)
  then show ?thesis by (rule FalseE)
next
  case None
  obtain me tls where me: "Metrics_Enabled w = me"
    and tls: "(certFile w \<noteq> [] \<and> keyFile w \<noteq> []) = tls" by simp
  note m = main_ok_gen[OF None me tls]
  from run_frame[OF assms(1)] obtain ex where ex: "trace s = trace (main w) @ ex"
    and g: "\<forall>e \<in> set ex. goroutine_event e"
    and mux: "DefaultServeMux s = DefaultServeMux (main w)" by blast
  define n where "n = (if me then 27 else 24::nat)"
  define pre where "pre = take n (trace (main w))"
  define post where "post = drop n (trace (main w)) @ ex"
  have tr: "trace s = pre @ post" by (simp add: pre_def post_def ex)
  have len: "length pre = n" by (cases me; cases tls; simp add: pre_def n_def m)
  have nolaunch: "\<forall>e \<in> set pre. \<not> is_launch e"
    by (cases me; cases tls; simp add: pre_def n_def m)
  have noasm_main: "\<forall>e \<in> set (drop n (trace (main w))). \<not> is_assembly e"
    by (cases me; cases tls; simp add: n_def m)
  have noasm_ex: "\<forall>e \<in> set ex. \<not> is_assembly e"
  proof
    fix e assume "e \<in> set ex"
    with g have "goroutine_event e" by blast
    then show "\<not> is_assembly e" by (cases e) simp_all
  qed
  have noasm: "\<forall>e \<in> set post. \<not> is_assembly e"
    using noasm_main noasm_ex by (auto simp add: post_def)
  from after_prefix[OF tr assms(2), of is_launch] assms(3) nolaunch
  have le: "length pre \<le> i" by blast
  note sub = prefix_in_take[OF tr le]
  have r: "\<forall>r \<in> set registrars. \<exists>as rs. Call r as rs \<in> set pre"
    by (cases me; cases tls; simp add: pre_def n_def m registrars_def)
  have c: "Call WrapHandlerInCORS [FieldOf (Obj NewBaseDendrite 1) ''APIMux'']
             [InCORS (FieldOf (Obj NewBaseDendrite 1) ''APIMux'')] \<in> set pre \<and>
           HttpHandle ''/'' (InCORS (FieldOf (Obj NewBaseDendrite 1) ''APIMux'')) \<in> set pre"
    by (cases me; cases tls; simp add: pre_def n_def m)
  have d: "Metrics_Enabled w \<longrightarrow> (\<exists>h. HttpHandle ''/metrics'' h \<in> set pre)"
    by (cases me; cases tls; simp add: pre_def n_def m me[symmetric])
  have 1: "\<forall>r \<in> set registrars. \<exists>as rs. Call r as rs \<in> set (take i (trace s))"
    using r sub by blast
  have 2: "\<exists>h. Call WrapHandlerInCORS [h] [InCORS h] \<in> set (take i (trace s)) \<and>
              HttpHandle ''/'' (InCORS h) \<in> set (take i (trace s))"
    using c sub by blast
  have 3: "Metrics_Enabled w \<longrightarrow> (\<exists>h. HttpHandle ''/metrics'' h \<in> set (take i (trace s)))"
    using d sub by blast
  have 4: "\<forall>j. i \<le> j \<and> j < length (trace s) \<longrightarrow> \<not> is_assembly (trace s ! j)"
  proof (intro allI impI)
    fix j assume j: "i \<le> j \<and> j < length (trace s)"
    with le have "length pre \<le> j" by simp
    from suffix_nth[OF tr this] j have "trace s ! j \<in> set post" by simp
    with noasm show "\<not> is_assembly (trace s ! j)" by blast
  qed
  from 1 2 3 4 mux show ?thesis by blast
qed

theorem router_assembled_before_listeners_witness:
  "\<exists>s. run world_tls [Start Plaintext] (main world_tls) = Some s \<and>
       27 < length (trace s) \<and> trace s ! 27 = Go Plaintext \<and> is_launch (trace s ! 27) \<and>
       (\<exists>h. HttpHandle ''/metrics'' h \<in> set (take 27 (trace s))) \<and>
       (\<exists>h. HttpHandle ''/'' (InCORS h) \<in> set (take 27 (trace s))) \<and>
       \<not> is_assembly (trace s ! 28)"
proof -
  have ok: "publicRoomsDB_err world_tls = None" by (simp add: world_tls_def)
  have me: "Metrics_Enabled world_tls = True" by (simp add: world_tls_def)
  have tls: "(certFile world_tls \<noteq> [] \<and> keyFile world_tls \<noteq> []) = True"
    by (simp add: world_tls_def flag_defs)
  note m = main_ok_gen[OF ok me tls]
  obtain s where s: "run world_tls [Start Plaintext] (main world_tls) = Some s"
    by (simp add: m)
  have i: "27 < length (trace s)" using s by (auto simp add: m)
  have g: "trace s ! 27 = Go Plaintext" using s by (auto simp add: m)
  then have l: "is_launch (trace s ! 27)" by simp
  have j: "(27::nat) \<le> 28 \<and> 28 < length (trace s)" using s by (auto simp add: m)
  from router_assembled_before_listeners[OF s i l] me j
  have "(\<exists>h. HttpHandle ''/metrics'' h \<in> set (take 27 (trace s))) \<and>
       (\<exists>h. HttpHandle ''/'' (InCORS h) \<in> set (take 27 (trace s))) \<and>
       \<not> is_assembly (trace s ! 28)" by blast
  with s i g l show ?thesis by blast
qed

text \<open>
  Claim C3. The goroutine of the TLS listener is launched only when both the
  certificate path and the key path are non-empty, and in every state the goroutines
  reach after \<^verbatim>\<open>main\<close> an entry into \<^verbatim>\<open>ListenAndServeTLS\<close>, or a serving TLS listener,
  exists only then; every such entry is made with the server on the value of the flag
  \<^verbatim>\<open>https-bind-address\<close> (\<^verbatim>\<open>:8448\<close> when the flag is not given), the write timeout
  \<^verbatim>\<open>basecomponent.HTTPServerTimeout\<close>, and the certificate and key files of the flags.
  Whenever \<^verbatim>\<open>main\<close> reaches its listener section, that is, whenever the public rooms
  database connected, the goroutine is launched exactly when both paths are non-empty.
  Then its body can run: it logs the address, enters \<^verbatim>\<open>ListenAndServeTLS\<close> with these
  values, and the TLS listener serves. With one of the paths or both empty, only the
  plaintext goroutine exists, the process keeps running, nothing was logged, no panic
  raised and no exit made, and the plaintext listener starts and serves alone.
\<close>

theorem tls_listener_iff_cert_and_key:
  "(Go TLS \<in> set (trace (main w)) \<longrightarrow> certFile w \<noteq> [] \<and> keyFile w \<noteq> []) \<and>
   (\<forall>evs s. run w evs (main w) = Some s \<longrightarrow>
      (\<forall>sv c k. ListenAndServeTLS sv c k \<in> set (trace s) \<longrightarrow>
         certFile w \<noteq> [] \<and> keyFile w \<noteq> [] \<and>
         sv = serv w TLS \<and> c = certFile w \<and> k = keyFile w) \<and>
      (is_serving s TLS \<longrightarrow> certFile w \<noteq> [] \<and> keyFile w \<noteq> [])) \<and>
   Addr (serv w TLS) = httpsBindAddr w \<and>
   (flags w ''https-bind-address'' = None \<longrightarrow> httpsBindAddr w = '':8448'') \<and>
   (\<forall>a. flags w ''https-bind-address'' = Some a \<longrightarrow> httpsBindAddr w = a) \<and>
   WriteTimeout (serv w TLS) = HTTPServerTimeout w \<and>
   (publicRoomsDB_err w = None \<longrightarrow>
      (Go TLS \<in> set (trace (main w))) = (certFile w \<noteq> [] \<and> keyFile w \<noteq> []) \<and>
      (step w (Start TLS) (main w) \<noteq> None) = (certFile w \<noteq> [] \<and> keyFile w \<noteq> []) \<and>
      (certFile w \<noteq> [] \<and> keyFile w \<noteq> [] \<longrightarrow>
         (\<exists>s'. step w (Start TLS) (main w) = Some s' \<and>
            trace s' = trace (main w) @
              [Log InfoLevel (''Listening on '' @ httpsBindAddr w) None,
               ListenAndServeTLS (serv w TLS) (certFile w) (keyFile w)] \<and>
            map_of (goroutines s') TLS = Some (Serving (serv w TLS)) \<and>
            is_serving s' TLS)) \<and>
      (\<not> (certFile w \<noteq> [] \<and> keyFile w \<noteq> []) \<longrightarrow>
         goroutines (main w) = [(Plaintext, Spawned)] \<and>
         status (main w) = Running \<and>
         (\<forall>e \<in> set (trace (main w)). \<not> is_log e) \<and>
         Panic \<notin> set (trace (main w)) \<and>
         (\<forall>n. Exit n \<notin> set (trace (main w))) \<and>
         (\<exists>s'. step w (Start Plaintext) (main w) = Some s' \<and>
            ListenAndServe (serv w Plaintext) \<in> set (trace s') \<and>
            is_serving s' Plaintext \<and> \<not> is_serving s' TLS)))"
proof -
  have A: "Go TLS \<in> set (trace (main w)) \<longrightarrow> certFile w \<noteq> [] \<and> keyFile w \<noteq> []"
  proof (cases "publicRoomsDB_err w")
    case None
    show ?thesis by (simp add: main_ok[OF None])
  next
    case (Some err)
    show ?thesis by (simp add: main_fail[OF Some])
  qed
  have B: "\<forall>evs s. run w evs (main w) = Some s \<longrightarrow>
      (\<forall>sv c k. ListenAndServeTLS sv c k \<in> set (trace s) \<longrightarrow>
         certFile w \<noteq> [] \<and> keyFile w \<noteq> [] \<and>
         sv = serv w TLS \<and> c = certFile w \<and> k = keyFile w) \<and>
      (is_serving s TLS \<longrightarrow> certFile w \<noteq> [] \<and> keyFile w \<noteq> [])"
  proof (intro allI impI)
    fix evs s
    assume r: "run w evs (main w) = Some s"
    note inv = run_tls_serve[OF r main_no_tls_serve]
    note dom = run_goroutines_dom[OF r]
    have 1: "certFile w \<noteq> [] \<and> keyFile w \<noteq> [] \<and>
         sv = serv w TLS \<and> c = certFile w \<and> k = keyFile w"
      if "ListenAndServeTLS sv c k \<in> set (trace s)" for sv c k
    proof -
      from inv that have x: "sv = serv w TLS \<and> c = certFile w \<and> k = keyFile w \<and>
        TLS \<in> fst ` set (goroutines s)" by blast
      with dom have "TLS \<in> fst ` set (goroutines (main w))" by simp
      from main_tls_goroutine[OF this] x show ?thesis by simp
    qed
    have 2: "certFile w \<noteq> [] \<and> keyFile w \<noteq> []" if "is_serving s TLS"
    proof -
      from serving_in_dom[OF that] dom have "TLS \<in> fst ` set (goroutines (main w))" by simp
      from main_tls_goroutine[OF this] show ?thesis .
    qed
    from 1 2 show "(\<forall>sv c k. ListenAndServeTLS sv c k \<in> set (trace s) \<longrightarrow>
         certFile w \<noteq> [] \<and> keyFile w \<noteq> [] \<and>
         sv = serv w TLS \<and> c = certFile w \<and> k = keyFile w) \<and>
      (is_serving s TLS \<longrightarrow> certFile w \<noteq> [] \<and> keyFile w \<noteq> [])" by blast
  qed
  have C: "Addr (serv w TLS) = httpsBindAddr w \<and>
   (flags w ''https-bind-address'' = None \<longrightarrow> httpsBindAddr w = '':8448'') \<and>
   (\<forall>a. flags w ''https-bind-address'' = Some a \<longrightarrow> httpsBindAddr w = a) \<and>
   WriteTimeout (serv w TLS) = HTTPServerTimeout w"
    by (simp add: serv_def flag_defs)
  have D: "(Go TLS \<in> set (trace (main w))) = (certFile w \<noteq> [] \<and> keyFile w \<noteq> []) \<and>
      (step w (Start TLS) (main w) \<noteq> None) = (certFile w \<noteq> [] \<and> keyFile w \<noteq> []) \<and>
      (certFile w \<noteq> [] \<and> keyFile w \<noteq> [] \<longrightarrow>
         (\<exists>s'. step w (Start TLS) (main w) = Some s' \<and>
            trace s' = trace (main w) @
              [Log InfoLevel (''Listening on '' @ httpsBindAddr w) None,
               ListenAndServeTLS (serv w TLS) (certFile w) (keyFile w)] \<and>
            map_of (goroutines s') TLS = Some (Serving (serv w TLS)) \<and>
            is_serving s' TLS)) \<and>
      (\<not> (certFile w \<noteq> [] \<and> keyFile w \<noteq> []) \<longrightarrow>
         goroutines (main w) = [(Plaintext, Spawned)] \<and>
         status (main w) = Running \<and>
         (\<forall>e \<in> set (trace (main w)). \<not> is_log e) \<and>
         Panic \<notin> set (trace (main w)) \<and>
         (\<forall>n. Exit n \<notin> set (trace (main w))) \<and>
         (\<exists>s'. step w (Start Plaintext) (main w) = Some s' \<and>
            ListenAndServe (serv w Plaintext) \<in> set (trace s') \<and>
            is_serving s' Plaintext \<and> \<not> is_serving s' TLS))"
    if None: "publicRoomsDB_err w = None"
  proof -
    obtain me tls where me: "Metrics_Enabled w = me"
      and tls: "(certFile w \<noteq> [] \<and> keyFile w \<noteq> []) = tls" by simp
    note m = main_ok_gen[OF None me tls]
    have ad: "Addr (serv w TLS) = httpsBindAddr w" by (simp add: serv_def)
    have 1: "(Go TLS \<in> set (trace (main w))) = tls" by (cases me; cases tls; simp add: m)
    have 2: "(step w (Start TLS) (main w) \<noteq> None) = tls" by (cases me; cases tls; simp add: m)
    have 3: "\<exists>s'. step w (Start TLS) (main w) = Some s' \<and>
            trace s' = trace (main w) @
              [Log InfoLevel (''Listening on '' @ httpsBindAddr w) None,
               ListenAndServeTLS (serv w TLS) (certFile w) (keyFile w)] \<and>
            map_of (goroutines s') TLS = Some (Serving (serv w TLS)) \<and>
            is_serving s' TLS" if "tls"
      using that by (cases me; simp add: m is_serving_def ad)
    have 4: "goroutines (main w) = [(Plaintext, Spawned)] \<and>
         status (main w) = Running \<and>
         (\<forall>e \<in> set (trace (main w)). \<not> is_log e) \<and>
         Panic \<notin> set (trace (main w)) \<and>
         (\<forall>n. Exit n \<notin> set (trace (main w))) \<and>
         (\<exists>s'. step w (Start Plaintext) (main w) = Some s' \<and>
            ListenAndServe (serv w Plaintext) \<in> set (trace s') \<and>
            is_serving s' Plaintext \<and> \<not> is_serving s' TLS)" if "\<not> tls"
      using that by (cases me; simp add: m is_serving_def)
    from 1 2 3 4 show ?thesis unfolding tls by blast
  qed
  from A B C D show ?thesis by blast
qed

theorem tls_listener_iff_cert_and_key_witness:
  "publicRoomsDB_err world_cert_only = None \<and>
   certFile world_cert_only = ''server.crt'' \<and> keyFile world_cert_only = [] \<and>
   Go TLS \<notin> set (trace (main world_cert_only)) \<and>
   goroutines (main world_cert_only) = [(Plaintext, Spawned)] \<and>
   status (main world_cert_only) = Running \<and>
   step world_cert_only (Start TLS) (main world_cert_only) = None \<and>
   publicRoomsDB_err world_tls = None \<and>
   certFile world_tls = ''server.crt'' \<and> keyFile world_tls = ''server.key'' \<and>
   Go TLS \<in> set (trace (main world_tls)) \<and>
   httpsBindAddr world_tls = '':8448'' \<and>
   (\<exists>s'. step world_tls (Start TLS) (main world_tls) = Some s' \<and>
      ListenAndServeTLS (serv world_tls TLS) (certFile world_tls) (keyFile world_tls)
        \<in> set (trace s') \<and>
      is_serving s' TLS)"
proof -
  have a: "publicRoomsDB_err world_cert_only = None" "certFile world_cert_only = ''server.crt''"
    "keyFile world_cert_only = []"
    by (simp_all add: world_cert_only_def flag_defs)
  have b: "publicRoomsDB_err world_tls = None" "certFile world_tls = ''server.crt''"
    "keyFile world_tls = ''server.key''" "flags world_tls ''https-bind-address'' = None"
    by (simp_all add: world_tls_def flag_defs)
  have na: "\<not> (certFile world_cert_only \<noteq> [] \<and> keyFile world_cert_only \<noteq> [])"
    using a by simp
  have yb: "certFile world_tls \<noteq> [] \<and> keyFile world_tls \<noteq> []" using b by simp
  from tls_listener_iff_cert_and_key[of world_cert_only] a(1) na
  have 1: "Go TLS \<notin> set (trace (main world_cert_only)) \<and>
   goroutines (main world_cert_only) = [(Plaintext, Spawned)] \<and>
   status (main world_cert_only) = Running \<and>
   step world_cert_only (Start TLS) (main world_cert_only) = None" by blast
  from tls_listener_iff_cert_and_key[of world_tls] b(1) b(4) yb
  have 2: "Go TLS \<in> set (trace (main world_tls)) \<and> httpsBindAddr world_tls = '':8448''"
    by blast
  from tls_listener_iff_cert_and_key[of world_tls] b(1) yb
  obtain s' where s': "step world_tls (Start TLS) (main world_tls) = Some s'"
    and tr: "trace s' = trace (main world_tls) @
              [Log InfoLevel (''Listening on '' @ httpsBindAddr world_tls) None,
               ListenAndServeTLS (serv world_tls TLS) (certFile world_tls) (keyFile world_tls)]"
    and sv: "is_serving s' TLS" by blast
  from tr have "ListenAndServeTLS (serv world_tls TLS) (certFile world_tls) (keyFile world_tls)
        \<in> set (trace s')" by simp
  with s' sv have 3: "\<exists>s'. step world_tls (Start TLS) (main world_tls) = Some s' \<and>
      ListenAndServeTLS (serv world_tls TLS) (certFile world_tls) (keyFile world_tls)
        \<in> set (trace s') \<and>
      is_serving s' TLS" by blast
  from 1 2 3 a b(1,2,3) show ?thesis by blast
qed

text \<open>
  Claim C4. When the connection to the public rooms database fails, the process ends
  with the runtime's exit code for a panic, after the failure and its cause were logged.
  No listener goroutine was launched and none can start, neither the public rooms
  registrar nor the sync registrar was called, and no route was installed on the
  default multiplexer.
\<close>

theorem db_failure_terminates_before_serving:
  assumes "publicRoomsDB_err w = Some err"
  shows "status (main w) = Exited 2 \<and>
         last (trace (main w)) = Exit 2 \<and>
         Log PanicLevel ''failed to connect to public rooms db'' (Some err)
           \<in> set (butlast (trace (main w))) \<and>
         (\<forall>e \<in> set (trace (main w)). \<not> is_launch e) \<and>
         goroutines (main w) = [] \<and>
         (\<forall>ev. step w ev (main w) = None) \<and>
         (\<forall>as rs. Call SetupPublicRoomsAPIComponent as rs \<notin> set (trace (main w)) \<and>
                  Call SetupSyncAPIComponent as rs \<notin> set (trace (main w))) \<and>
         (\<forall>p h. HttpHandle p h \<notin> set (trace (main w))) \<and>
         DefaultServeMux (main w) = []"
proof -
  note m = main_fail[OF assms]
  have 1: "status (main w) = Exited 2" by (simp add: m)
  have 2: "last (trace (main w)) = Exit 2" by (simp add: m)
  have 3: "Log PanicLevel ''failed to connect to public rooms db'' (Some err)
           \<in> set (butlast (trace (main w)))" by (simp add: m)
  have 4: "\<forall>e \<in> set (trace (main w)). \<not> is_launch e" by (simp add: m)
  have 5: "goroutines (main w) = []" by (simp add: m)
  have 6: "\<forall>ev. step w ev (main w) = None" using 1 by (simp add: step_stopped)
  have 7: "\<forall>as rs. Call SetupPublicRoomsAPIComponent as rs \<notin> set (trace (main w)) \<and>
                  Call SetupSyncAPIComponent as rs \<notin> set (trace (main w))" by (simp add: m)
  have 8: "\<forall>p h. HttpHandle p h \<notin> set (trace (main w))" by (simp add: m)
  have 9: "DefaultServeMux (main w) = []" by (simp add: m)
  from 1 2 3 4 5 6 7 8 9 show ?thesis by blast
qed

theorem db_failure_terminates_before_serving_witness:
  "publicRoomsDB_err world_db_down = Some ''connection refused'' \<and>
   status (main world_db_down) = Exited 2 \<and>
   last (trace (main world_db_down)) = Exit 2 \<and>
   goroutines (main world_db_down) = [] \<and>
   DefaultServeMux (main world_db_down) = [] \<and>
   step world_db_down (Start Plaintext) (main world_db_down) = None"
proof -
  have h: "publicRoomsDB_err world_db_down = Some ''connection refused''"
    by (simp add: world_db_down_def)
  from db_failure_terminates_before_serving[OF h] h show ?thesis by blast
qed

text \<open>
  Claim C5. In every state that the listener goroutines can reach after \<^verbatim>\<open>main\<close>, when
  the serve call of either listener returns its error, the error is logged at fatal level
  and the process exits with code 1. After that no listener serves, the other one
  included, no goroutine was added, and no further step is possible: nothing is retried
  or restarted.
\<close>

theorem listener_failure_is_fatal:
  assumes "run w evs (main w) = Some s" and "step w (Fail l err) s = Some s'"
  shows "status s' = Exited 1 \<and>
         trace s' = trace s @ [Log FatalLevel err None, Exit 1] \<and>
         goroutines s' = goroutines s \<and>
         (\<forall>l'. \<not> is_serving s' l') \<and>
         (\<forall>ev. step w ev s' = None) \<and>
         (\<forall>ev evs'. run w (ev # evs') s' = None)"
proof -
  note f = step_Fail(1)[OF assms(2)]
  have 1: "status s' = Exited 1" by (simp add: f)
  then have 2: "\<forall>ev. step w ev s' = None" by (simp add: step_stopped)
  have 3: "\<forall>l'. \<not> is_serving s' l'" using 1 by (simp add: is_serving_def)
  show ?thesis using 1 2 3 by (simp add: f)
qed

theorem listener_failure_is_fatal_witness:
  "\<exists>s s'. run world_tls [Start Plaintext, Start TLS] (main world_tls) = Some s \<and>
      step world_tls (Fail Plaintext ''listen tcp :8008: bind: address already in use'') s = Some s' \<and>
      is_serving s Plaintext \<and> is_serving s TLS \<and>
      status s' = Exited 1 \<and> \<not> is_serving s' TLS \<and> step world_tls (Start TLS) s' = None"
proof -
  have ok: "publicRoomsDB_err world_tls = None" by (simp add: world_tls_def)
  have fl: "certFile world_tls \<noteq> [] \<and> keyFile world_tls \<noteq> []"
    by (simp add: world_tls_def flag_defs)
  obtain s where s: "run world_tls [Start Plaintext, Start TLS] (main world_tls) = Some s"
    by (simp add: main_ok[OF ok] fl)
  have sv: "is_serving s Plaintext \<and> is_serving s TLS"
    using s by (auto simp add: main_ok[OF ok] fl is_serving_def)
  then obtain s' where s': "step world_tls (Fail Plaintext ''listen tcp :8008: bind: address already in use'') s = Some s'"
    by (simp add: is_serving_def)
  from listener_failure_is_fatal[OF s s'] s s' sv show ?thesis by blast
qed




text \<open>
  Claim C7 says that one cache is constructed and handed to both the application-service
  bridge and the client API. The source calls \<^verbatim>\<open>transactions.New()\<close> twice, once in the
  argument list of each of the two registrars, so each receives an object of its own.
  With the environment \<open>world_plain\<close> no cache reaches both.
\<close>

theorem cache_shared_counterexample:
  "\<not> shares_cache (trace (main world_plain))"
proof -
  have ok: "publicRoomsDB_err world_plain = None" by (simp add: world_plain_def)
  have me: "Metrics_Enabled world_plain = False" by (simp add: world_plain_def)
  have tls: "(certFile world_plain \<noteq> [] \<and> keyFile world_plain \<noteq> []) = False"
    by (simp add: world_plain_def flag_defs)
  show ?thesis
    by (simp add: main_ok_gen[OF ok me tls] shares_cache_def results_of_def receivers_def)
qed

text \<open>
  Claim C7, amended. In every run \<^verbatim>\<open>main\<close> constructs two caches, by two calls of
  \<^verbatim>\<open>transactions.New()\<close>. They are different objects. The first is an argument of the
  application-service bridge and of no other call, the second an argument of the client
  API and of no other call; neither is an argument of the call that builds the shared
  infrastructure handle.
\<close>

theorem each_consumer_gets_own_cache:
  "\<exists>c1 c2. results_of transactions_New (trace (main w)) = [c1, c2] \<and> c1 \<noteq> c2 \<and>
      receivers c1 (trace (main w)) = [SetupAppServiceAPIComponent] \<and>
      receivers c2 (trace (main w)) = [SetupClientAPIComponent] \<and>
      \<not> shares_cache (trace (main w))"
proof (cases "publicRoomsDB_err w")
  case None
  obtain me tls where me: "Metrics_Enabled w = me"
    and tls: "(certFile w \<noteq> [] \<and> keyFile w \<noteq> []) = tls" by simp
  note m = main_ok_gen[OF None me tls]
  show ?thesis
    apply (rule exI[of _ "Obj transactions_New 12"])
    apply (rule exI[of _ "Obj transactions_New 15"])
    apply (cases me; cases tls; simp add: m shares_cache_def results_of_def receivers_def)
    done
next
  case (Some err)
  note m = main_fail[OF Some]
  show ?thesis
    apply (rule exI[of _ "Obj transactions_New 12"])
    apply (rule exI[of _ "Obj transactions_New 15"])
    apply (simp add: m shares_cache_def results_of_def receivers_def)
    done
qed

theorem each_consumer_gets_own_cache_witness:
  "\<exists>c1 c2. results_of transactions_New (trace (main world_tls)) = [c1, c2] \<and> c1 \<noteq> c2 \<and>
      receivers c1 (trace (main world_tls)) = [SetupAppServiceAPIComponent] \<and>
      receivers c2 (trace (main world_tls)) = [SetupClientAPIComponent]"
  using each_consumer_gets_own_cache[of world_tls] by blast

text \<open>
  Claim C8. In every state the goroutines reach after \<^verbatim>\<open>main\<close> in which both listeners
  are inside their serve call, the two servers have a nil \<^verbatim>\<open>Handler\<close>, so both dispatch on
  \<^verbatim>\<open>http.DefaultServeMux\<close> as \<^verbatim>\<open>main\<close> left it: for every request path, of a \<^verbatim>\<open>CONNECT\<close>
  request or any other, what answers through the plaintext server is what answers through
  the TLS server.
\<close>

theorem both_listeners_serve_same_routes:
  assumes "run w evs (main w) = Some s"
    and "map_of (goroutines s) Plaintext = Some (Serving sp)"
    and "map_of (goroutines s) TLS = Some (Serving st)"
  shows "serverHandler sp s connect path = serverHandler st s connect path \<and>
         serverHandler sp s connect path =
           ServeMux_Handler (DefaultServeMux (main w)) connect path \<and>
         Handler sp = None \<and> Handler st = None"
proof -
  note inv = run_servers[OF assms(1) main_none_serving]
  from inv assms(2) have sp: "sp = serv w Plaintext" by blast
  from inv assms(3) have st: "st = serv w TLS" by blast
  from run_frame[OF assms(1)] have mux: "DefaultServeMux s = DefaultServeMux (main w)" by blast
  show ?thesis by (simp add: sp st serverHandler_def serv_def mux)
qed

theorem both_listeners_serve_same_routes_witness:
  "\<exists>s. run world_tls [Start Plaintext, Start TLS] (main world_tls) = Some s \<and>
       map_of (goroutines s) Plaintext = Some (Serving (serv world_tls Plaintext)) \<and>
       map_of (goroutines s) TLS = Some (Serving (serv world_tls TLS)) \<and>
       serverHandler (serv world_tls Plaintext) s False ''/_matrix/client/versions'' =
         serverHandler (serv world_tls TLS) s False ''/_matrix/client/versions''"
proof -
  have ok: "publicRoomsDB_err world_tls = None" by (simp add: world_tls_def)
  have me: "Metrics_Enabled world_tls = True" by (simp add: world_tls_def)
  have tls: "(certFile world_tls \<noteq> [] \<and> keyFile world_tls \<noteq> []) = True"
    by (simp add: world_tls_def flag_defs)
  note m = main_ok_gen[OF ok me tls]
  obtain s where s: "run world_tls [Start Plaintext, Start TLS] (main world_tls) = Some s"
    by (simp add: m)
  have p: "map_of (goroutines s) Plaintext = Some (Serving (serv world_tls Plaintext))"
    using s by (auto simp add: m)
  have t: "map_of (goroutines s) TLS = Some (Serving (serv world_tls TLS))"
    using s by (auto simp add: m)
  from both_listeners_serve_same_routes[OF s p t] s p t show ?thesis by blast
qed

text \<open>
  Claim C9. Whenever \<^verbatim>\<open>main\<close> reaches its listener section, the plaintext goroutine is
  launched once, whatever the flags and the configuration say, and in every state the
  goroutines reach afterwards the log still holds exactly one launch of it and at most
  one entry of the plaintext server into its serve call. Its server
  listens on the value of the flag \<^verbatim>\<open>http-bind-address\<close>, which is \<^verbatim>\<open>:8008\<close> when the flag
  is not given, and its write timeout is \<^verbatim>\<open>basecomponent.HTTPServerTimeout\<close>: a bound
  whenever that constant is positive. Once started, it cannot be started again.
\<close>

theorem plaintext_listener_started_once:
  assumes "publicRoomsDB_err w = None"
  shows "count_list (trace (main w)) (Go Plaintext) = 1 \<and>
         (\<forall>evs s. run w evs (main w) = Some s \<longrightarrow>
            count_list (trace s) (Go Plaintext) = 1 \<and>
            length (filter is_plain_serve (trace s)) \<le> 1) \<and>
         (\<exists>s'. step w (Start Plaintext) (main w) = Some s' \<and>
               ListenAndServe (serv w Plaintext) \<in> set (trace s') \<and>
               map_of (goroutines s') Plaintext = Some (Serving (serv w Plaintext)) \<and>
               step w (Start Plaintext) s' = None) \<and>
         Addr (serv w Plaintext) = httpBindAddr w \<and>
         (flags w ''http-bind-address'' = None \<longrightarrow> httpBindAddr w = '':8008'') \<and>
         (\<forall>a. flags w ''http-bind-address'' = Some a \<longrightarrow> httpBindAddr w = a) \<and>
         WriteTimeout (serv w Plaintext) = HTTPServerTimeout w \<and>
         (0 < HTTPServerTimeout w \<longrightarrow> 0 < WriteTimeout (serv w Plaintext)) \<and>
         Handler (serv w Plaintext) = None"
proof -
  note m = main_ok[OF assms]
  have 1: "count_list (trace (main w)) (Go Plaintext) = 1" by (simp add: m)
  have 2: "count_list (trace s) (Go Plaintext) = 1 \<and> length (filter is_plain_serve (trace s)) \<le> 1"
    if r: "run w evs (main w) = Some s" for evs s
  proof -
    from run_frame[OF r] obtain ex where ex: "trace s = trace (main w) @ ex"
      and g: "\<forall>e \<in> set ex. goroutine_event e" by blast
    have "Go Plaintext \<notin> set ex" using g by auto
    then have "count_list ex (Go Plaintext) = 0" by (simp add: count_list_0_iff)
    with 1 ex have a: "count_list (trace s) (Go Plaintext) = 1" by simp
    have "serve_budget (main w) = 1" by (simp add: serve_budget_def m)
    with run_serve_budget[OF r] have "length (filter is_plain_serve (trace s)) \<le> 1"
      by (simp add: serve_budget_def split: if_splits)
    with a show ?thesis by simp
  qed
  have 3: "\<exists>s'. step w (Start Plaintext) (main w) = Some s' \<and>
               ListenAndServe (serv w Plaintext) \<in> set (trace s') \<and>
               map_of (goroutines s') Plaintext = Some (Serving (serv w Plaintext)) \<and>
               step w (Start Plaintext) s' = None"
    by (simp add: m)
  have 4: "Addr (serv w Plaintext) = httpBindAddr w \<and>
         (flags w ''http-bind-address'' = None \<longrightarrow> httpBindAddr w = '':8008'') \<and>
         (\<forall>a. flags w ''http-bind-address'' = Some a \<longrightarrow> httpBindAddr w = a) \<and>
         WriteTimeout (serv w Plaintext) = HTTPServerTimeout w \<and>
         (0 < HTTPServerTimeout w \<longrightarrow> 0 < WriteTimeout (serv w Plaintext)) \<and>
         Handler (serv w Plaintext) = None"
    by (simp add: serv_def flag_defs)
  from 1 2 3 4 show ?thesis by blast
qed

theorem plaintext_listener_started_once_witness:
  "publicRoomsDB_err world_plain = None \<and>
   flags world_plain ''http-bind-address'' = None \<and>
   0 < HTTPServerTimeout world_plain \<and>
   count_list (trace (main world_plain)) (Go Plaintext) = 1 \<and>
   httpBindAddr world_plain = '':8008'' \<and>
   Addr (serv world_plain Plaintext) = '':8008'' \<and>
   0 < WriteTimeout (serv world_plain Plaintext)"
proof -
  have a: "publicRoomsDB_err world_plain = None" "flags world_plain ''http-bind-address'' = None"
    "0 < HTTPServerTimeout world_plain"
    by (simp_all add: world_plain_def)
  from plaintext_listener_started_once[OF a(1)] a show ?thesis by simp
qed

text \<open>
  Claim C10. On the failure of the public rooms database the log ends with the panic-level
  entry, the panic, the deferred \<^verbatim>\<open>Close\<close> of the base that \<^verbatim>\<open>NewBaseDendrite\<close> returned, and
  the exit: the deferred call ran before the process ended. When instead a listener's
  serve call fails, in any state the goroutines reach after \<^verbatim>\<open>main\<close>, the process exits
  with code 1, no \<^verbatim>\<open>Close\<close> is in the log and the deferred call is still pending.
\<close>

theorem panic_runs_deferred_close_fatal_does_not:
  "(\<forall>err. publicRoomsDB_err w = Some err \<longrightarrow>
      (\<exists>pre cfg base.
         trace (main w) =
           pre @ [Log PanicLevel ''failed to connect to public rooms db'' (Some err), Panic,
                  Call base_Close [base] [], Exit 2] \<and>
         Call NewBaseDendrite [cfg, Str ''Monolith''] [base] \<in> set pre \<and>
         Defer base_Close [base] \<in> set pre \<and>
         (\<forall>as rs. Call base_Close as rs \<notin> set pre)) \<and>
      deferred (main w) = [] \<and> status (main w) = Exited 2) \<and>
   (publicRoomsDB_err w = None \<longrightarrow>
      (\<forall>evs s l e s'. run w evs (main w) = Some s \<longrightarrow> step w (Fail l e) s = Some s' \<longrightarrow>
         status s' = Exited 1 \<and>
         (\<forall>as rs. Call base_Close as rs \<notin> set (trace s')) \<and>
         (\<exists>base. deferred s' = [(base_Close, [base])])))"
proof (cases "publicRoomsDB_err w")
  case (Some err)
  note m = main_fail[OF Some]
  have "\<exists>pre cfg base.
         trace (main w) =
           pre @ [Log PanicLevel ''failed to connect to public rooms db'' (Some err), Panic,
                  Call base_Close [base] [], Exit 2] \<and>
         Call NewBaseDendrite [cfg, Str ''Monolith''] [base] \<in> set pre \<and>
         Defer base_Close [base] \<in> set pre \<and>
         (\<forall>as rs. Call base_Close as rs \<notin> set pre)"
    apply (rule exI[of _ "take 20 (trace (main w))"])
    apply (rule exI[of _ "Obj ParseMonolithFlags 0"])
    apply (rule exI[of _ "Obj NewBaseDendrite 1"])
    apply (simp add: m)
    done
  moreover have "deferred (main w) = [] \<and> status (main w) = Exited 2" by (simp add: m)
  ultimately show ?thesis using Some by simp
next
  case None
  note m = main_ok[OF None]
  have A: "\<forall>evs s l e s'. run w evs (main w) = Some s \<longrightarrow> step w (Fail l e) s = Some s' \<longrightarrow>
         status s' = Exited 1 \<and>
         (\<forall>as rs. Call base_Close as rs \<notin> set (trace s')) \<and>
         (\<exists>base. deferred s' = [(base_Close, [base])])"
  proof (intro allI impI)
    fix evs s l e s'
    assume r: "run w evs (main w) = Some s" and f: "step w (Fail l e) s = Some s'"
    from run_frame[OF r] obtain ex where ex: "trace s = trace (main w) @ ex"
      and g: "\<forall>e \<in> set ex. goroutine_event e" and d: "deferred s = deferred (main w)" by blast
    note s' = step_Fail(1)[OF f]
    have a: "\<forall>as rs. Call base_Close as rs \<notin> set (trace (main w))" by (auto simp add: m)
    have b: "\<forall>as rs. Call base_Close as rs \<notin> set ex" using g by auto
    have "\<forall>as rs. Call base_Close as rs \<notin> set (trace s')" using a b by (simp add: s' ex)
    moreover have "deferred s' = [(base_Close, [Obj NewBaseDendrite 1])]"
      by (simp add: s' d m)
    moreover have "status s' = Exited 1" by (simp add: s')
    ultimately show "status s' = Exited 1 \<and>
         (\<forall>as rs. Call base_Close as rs \<notin> set (trace s')) \<and>
         (\<exists>base. deferred s' = [(base_Close, [base])])" by blast
  qed
  show ?thesis
  proof (intro conjI allI impI)
    fix err assume "publicRoomsDB_err w = Some err"
    with None have False by simp
    then show "\<exists>pre cfg base.
         trace (main w) =
           pre @ [Log PanicLevel ''failed to connect to public rooms db'' (Some err), Panic,
                  Call base_Close [base] [], Exit 2] \<and>
         Call NewBaseDendrite [cfg, Str ''Monolith''] [base] \<in> set pre \<and>
         Defer base_Close [base] \<in> set pre \<and>
         (\<forall>as rs. Call base_Close as rs \<notin> set pre)" by (rule FalseE)
  next
    fix err assume "publicRoomsDB_err w = Some err"
    with None have False by simp
    then show "deferred (main w) = []" by (rule FalseE)
  next
    fix err assume "publicRoomsDB_err w = Some err"
    with None have False by simp
    then show "status (main w) = Exited 2" by (rule FalseE)
  next
    fix evs s l e s'
    assume "run w evs (main w) = Some s" "step w (Fail l e) s = Some s'"
    with A show "status s' = Exited 1" by blast
  next
    fix evs s l e s' as rs
    assume "run w evs (main w) = Some s" "step w (Fail l e) s = Some s'"
    with A show "Call base_Close as rs \<notin> set (trace s')" by blast
  next
    fix evs s l e s'
    assume "run w evs (main w) = Some s" "step w (Fail l e) s = Some s'"
    with A show "\<exists>base. deferred s' = [(base_Close, [base])]" by blast
  qed
qed

theorem panic_runs_deferred_close_fatal_does_not_witness:
  "publicRoomsDB_err world_db_down = Some ''connection refused'' \<and>
   deferred (main world_db_down) = [] \<and> status (main world_db_down) = Exited 2 \<and>
   (\<exists>pre base. trace (main world_db_down) = pre @ [Panic, Call base_Close [base] [], Exit 2]) \<and>
   publicRoomsDB_err world_plain = None \<and>
   (\<exists>s s'. run world_plain [Start Plaintext] (main world_plain) = Some s \<and>
      step world_plain (Fail Plaintext ''accept tcp: too many open files'') s = Some s' \<and>
      status s' = Exited 1 \<and> deferred s' \<noteq> [] \<and>
      (\<forall>as rs. Call base_Close as rs \<notin> set (trace s')))"
proof -
  have a: "publicRoomsDB_err world_db_down = Some ''connection refused''"
    by (simp add: world_db_down_def)
  have b: "publicRoomsDB_err world_plain = None" by (simp add: world_plain_def)
  note t = panic_runs_deferred_close_fatal_does_not
  from t[of world_db_down] a
  have 1: "deferred (main world_db_down) = [] \<and> status (main world_db_down) = Exited 2 \<and>
   (\<exists>pre base. trace (main world_db_down) = pre @ [Panic, Call base_Close [base] [], Exit 2])"
    by fastforce
  have fl: "\<not> (certFile world_plain \<noteq> [] \<and> keyFile world_plain \<noteq> [])"
    by (simp add: world_plain_def flag_defs)
  obtain s where s: "run world_plain [Start Plaintext] (main world_plain) = Some s"
    by (simp add: main_ok[OF b] fl)
  have "is_serving s Plaintext"
    using s by (auto simp add: main_ok[OF b] fl is_serving_def)
  then obtain s' where s': "step world_plain (Fail Plaintext ''accept tcp: too many open files'') s = Some s'"
    by (simp add: is_serving_def)
  from t[of world_plain] b s s'
  have "status s' = Exited 1 \<and> deferred s' \<noteq> [] \<and>
      (\<forall>as rs. Call base_Close as rs \<notin> set (trace s'))" by fastforce
  with s s' 1 a b show ?thesis by blast
qed

end
